theory Spec2Isabelle
  imports Complex_Main "HOL-Library.Option_ord"
begin

section \<open>Data model (crypto/models.py)\<close>

text \<open>
  Django \<open>DecimalField\<close> values are Python \<open>Decimal\<close>s; their sums, differences and
  products are modelled by exact rational arithmetic.  The rounding to two decimal places
  that the database column applies when a row is stored is not modelled.  Instants (\<open>timezone.now()\<close>) are
  seconds on the rational line, so that \<open>timedelta(seconds=35)\<close> is the number 35.
\<close>

type_synonym money = rat
type_synonym time = rat

text \<open>class Rank.  The table is read in \<open>min_balance\<close> order (Meta.ordering).\<close>

record rank =
  pk :: nat
  name :: string
  min_balance :: money
  max_balance :: "money option"
  daily_profit_pct :: rat
  copy_trades_limit :: int

text \<open>class Profile.  A profile row is found by its one-to-one \<open>user\<close>, the key of the
  \<open>profiles\<close> table below; \<open>rank_id\<close> is the foreign key column behind \<open>profile.rank\<close>.
  Model instances compare by primary key, so \<open>new_rank != self.rank\<close> compares
  \<open>rank_id\<close> with the key of the band found.\<close>

record profile =
  rank_id :: "nat option"
  locked_balance :: money
  withdrawable_balance :: money
  total_referrals :: int
  valid_referrals :: int
  referral_earnings :: money
  last_withdrawal_at :: "time option"

definition principal_balance :: "profile \<Rightarrow> money" where
  "principal_balance p = locked_balance p + withdrawable_balance p"

text \<open>\<open>Rank.objects.order_by('min_balance')\<close>\<close>

definition ranks_by_min_balance :: "rank list \<Rightarrow> rank list" where
  "ranks_by_min_balance ranks = sort_key min_balance ranks"

text \<open>The body of the \<open>for rank in ranks\<close> loop of \<open>Profile.get_rank\<close>: the first band,
  in the order given, with \<open>principal >= min_balance\<close> and
  (\<open>max_balance is None\<close> or \<open>principal <= max_balance\<close>).\<close>

fun get_rank_loop :: "money \<Rightarrow> rank list \<Rightarrow> rank option" where
  "get_rank_loop pb [] = None"
| "get_rank_loop pb (r # rs) =
     (if pb \<ge> min_balance r then
        (if (case max_balance r of None \<Rightarrow> True | Some m \<Rightarrow> pb \<le> m) then Some r
         else get_rank_loop pb rs)
      else get_rank_loop pb rs)"

definition get_rank :: "rank list \<Rightarrow> profile \<Rightarrow> rank option" where
  "get_rank ranks p =
     (if principal_balance p \<le> 0 then None
      else get_rank_loop (principal_balance p) (ranks_by_min_balance ranks))"

text \<open>What the code tests for a band: the closed interval.\<close>

definition band_holds :: "rank \<Rightarrow> money \<Rightarrow> bool" where
  "band_holds r x = (min_balance r \<le> x \<and> (case max_balance r of None \<Rightarrow> True | Some m \<Rightarrow> x \<le> m))"

text \<open>What the specification says of a band: the half-open interval
  \<open>[minBalance, maxBalance)\<close>, unbounded when \<open>maxBalance\<close> is absent.\<close>

definition spec_band_contains :: "rank \<Rightarrow> money \<Rightarrow> bool" where
  "spec_band_contains r x = (min_balance r \<le> x \<and> (case max_balance r of None \<Rightarrow> True | Some m \<Rightarrow> x < m))"

text \<open>class Deposit (the columns the modelled views read or write).  \<open>dep_status\<close> is one
  of \<open>pending\<close>, \<open>approved\<close>, \<open>rejected\<close>, \<open>expired\<close>.\<close>

record deposit =
  dep_id :: nat
  dep_user_id :: nat
  dep_amount :: money
  network :: string
  wallet_address :: string
  dep_status :: string
  expires_at :: "time option"
  approved_at :: "time option"
  referrer_id :: "nat option"

text \<open>class LocalDeposit (gateway deposits), with statuses \<open>pending\<close>, \<open>paid\<close>, ...\<close>

record local_deposit =
  ld_id :: nat
  ld_user_id :: nat
  amount_usdt :: money
  ld_status :: string
  paid_at :: "time option"
  ld_referrer_id :: "nat option"

text \<open>class CopyTrade.\<close>

record copy_trade =
  trade_id :: nat
  trade_user_id :: nat
  profit :: money
  trade_status :: string
  created_at :: time

text \<open>class Referral.\<close>

record referral =
  ref_referrer_id :: nat
  ref_referee_id :: nat
  ref_bonus_amount :: money
  ref_deposit_id :: nat

text \<open>class PromoCode and class PromoRedemption.\<close>

record promo_code =
  promo_id :: nat
  code :: string
  bonus_min :: money
  bonus_max :: money
  expiration :: "time option"
  usage_limit :: "int option"
  usage_count :: int
  promo_status :: string

record promo_redemption =
  red_user_id :: nat
  red_promo_id :: nat
  red_bonus_amount :: money

text \<open>The database: one table per model, rows in primary-key order; a notification is the
  pair of its user and its message.  Every \<open>save\<close> commits on its own (no request-wide
  transaction is configured), so an exception leaves the rows written before it.\<close>

record db =
  profiles :: "nat \<rightharpoonup> profile"
  deposits :: "deposit list"
  local_deposits :: "local_deposit list"
  copy_trades :: "copy_trade list"
  referrals :: "referral list"
  promo_codes :: "promo_code list"
  promo_redemptions :: "promo_redemption list"
  notifications :: "(nat \<times> string) list"

datatype error =
    RelatedObjectDoesNotExist
  | Http404
  | InvalidCode
  | Expired
  | ExhaustedUsage
  | AlreadyRedeemed
  | ValueError
  | IndexError

definition empty_db :: db where
  "empty_db = \<lparr>profiles = Map.empty, deposits = [], local_deposits = [], copy_trades = [], referrals = [],
     promo_codes = [], promo_redemptions = [], notifications = []\<rparr>"

text \<open>\<open>profile.save(...)\<close> of the row of user \<open>u\<close>.\<close>

definition save_profile :: "nat \<Rightarrow> profile \<Rightarrow> db \<Rightarrow> db" where
  "save_profile u p s = s\<lparr>profiles := (profiles s)(u \<mapsto> p)\<rparr>"

text \<open>\<open>deposit.status = st; deposit.save(update_fields=['status'])\<close>: an update of the row
  with that primary key.\<close>

definition save_deposit_status :: "nat \<Rightarrow> string \<Rightarrow> db \<Rightarrow> db" where
  "save_deposit_status i st s =
     s\<lparr>deposits := map (\<lambda>x. if dep_id x = i then x\<lparr>dep_status := st\<rparr> else x) (deposits s)\<rparr>"

text \<open>A \<open>for row in queryset\<close> loop: the rows are fetched once, before the first iteration;
  an exception raised by the body ends the loop.\<close>

fun for_each :: "('a \<Rightarrow> db \<Rightarrow> error option \<times> db) \<Rightarrow> 'a list \<Rightarrow> db \<Rightarrow> error option \<times> db" where
  "for_each body [] s = (None, s)"
| "for_each body (x # xs) s =
     (case body x s of
        (Some e, s') \<Rightarrow> (Some e, s')
      | (None, s') \<Rightarrow> for_each body xs s')"

section \<open>Expiry of deposits (views.process_expired_deposits)\<close>

text \<open>\<open>Deposit.objects.filter(status='approved', expires_at__lte=now).order_by('approved_at')\<close>.
  A null \<open>expires_at\<close> never satisfies the filter; a null \<open>approved_at\<close> sorts first.\<close>

definition expired_deposits :: "time \<Rightarrow> db \<Rightarrow> deposit list" where
  "expired_deposits now s =
     sort_key approved_at
       (filter (\<lambda>d. dep_status d = ''approved'' \<and> (case expires_at d of None \<Rightarrow> False | Some e \<Rightarrow> e \<le> now))
          (deposits s))"

text \<open>\<open>old_rank.name if old_rank else 'None'\<close>, the rank being the row of that key.\<close>

definition rank_name :: "rank list \<Rightarrow> nat option \<Rightarrow> string" where
  "rank_name ranks rid =
     (case rid of None \<Rightarrow> ''None''
      | Some i \<Rightarrow> (case find (\<lambda>r. pk r = i) ranks of None \<Rightarrow> ''None'' | Some r \<Rightarrow> name r))"

definition demotion_message :: "rank list \<Rightarrow> nat option \<Rightarrow> nat option \<Rightarrow> string" where
  "demotion_message ranks old_rank new_rank =
     ''Your rank has been demoted from '' @ rank_name ranks old_rank @ '' to ''
       @ rank_name ranks new_rank @ '' due to expired deposit.''"

text \<open>The body of the loop, for one fetched deposit \<open>d\<close>.\<close>

definition expire_deposit :: "rank list \<Rightarrow> deposit \<Rightarrow> db \<Rightarrow> error option \<times> db" where
  "expire_deposit ranks d s =
     (case profiles s (dep_user_id d) of
        None \<Rightarrow> (Some RelatedObjectDoesNotExist, s)
      | Some profile \<Rightarrow>
          if locked_balance profile \<ge> dep_amount d then
            let profile1 = profile\<lparr>locked_balance := locked_balance profile - dep_amount d\<rparr>;
                s1 = save_profile (dep_user_id d) profile1 s;
                s2 = save_deposit_status (dep_id d) ''expired'' s1;
                old_rank = rank_id profile1;
                new_rank = map_option pk (get_rank ranks profile1)
            in if old_rank \<noteq> new_rank then
                 let s3 = save_profile (dep_user_id d) (profile1\<lparr>rank_id := new_rank\<rparr>) s2
                 in (None, s3\<lparr>notifications := notifications s3 @
                       [(dep_user_id d, demotion_message ranks old_rank new_rank)]\<rparr>)
               else (None, s2)
          else (None, s))"

definition process_expired_deposits :: "rank list \<Rightarrow> time \<Rightarrow> db \<Rightarrow> error option \<times> db" where
  "process_expired_deposits ranks now s = for_each (expire_deposit ranks) (expired_deposits now s) s"


section \<open>Copy trades (views.complete_pending_trades, views.update_pending_trades_profit)\<close>

text \<open>\<open>trade.status = st; trade.save(update_fields=['status'])\<close> and
  \<open>trade.profit = v; trade.save(update_fields=['profit'])\<close>.\<close>

definition save_trade_status :: "nat \<Rightarrow> string \<Rightarrow> db \<Rightarrow> db" where
  "save_trade_status i st s =
     s\<lparr>copy_trades := map (\<lambda>x. if trade_id x = i then x\<lparr>trade_status := st\<rparr> else x) (copy_trades s)\<rparr>"

definition save_trade_profit :: "nat \<Rightarrow> money \<Rightarrow> db \<Rightarrow> db" where
  "save_trade_profit i v s =
     s\<lparr>copy_trades := map (\<lambda>x. if trade_id x = i then x\<lparr>profit := v\<rparr> else x) (copy_trades s)\<rparr>"

text \<open>\<open>CopyTrade.objects.filter(status='pending', created_at__lte=now - timedelta(seconds=35))\<close>,
  in the model's default order, newest first.\<close>

definition trades_to_complete :: "time \<Rightarrow> db \<Rightarrow> copy_trade list" where
  "trades_to_complete now s =
     sort_key (\<lambda>t. - created_at t)
       (filter (\<lambda>t. trade_status t = ''pending'' \<and> created_at t \<le> now - 35) (copy_trades s))"

text \<open>The loop body: the status is saved first, then the owner's profile is read and
  credited with the fetched row's profit.  No rank is recomputed here.\<close>

definition complete_trade :: "copy_trade \<Rightarrow> db \<Rightarrow> error option \<times> db" where
  "complete_trade trade s =
     (let final_profit = profit trade;
          s1 = save_trade_status (trade_id trade) ''completed'' s
      in case profiles s1 (trade_user_id trade) of
           None \<Rightarrow> (Some RelatedObjectDoesNotExist, s1)
         | Some profile \<Rightarrow>
             (None, save_profile (trade_user_id trade)
                      (profile\<lparr>withdrawable_balance := withdrawable_balance profile + final_profit\<rparr>) s1))"

definition complete_pending_trades :: "time \<Rightarrow> db \<Rightarrow> error option \<times> db" where
  "complete_pending_trades now s = for_each complete_trade (trades_to_complete now s) s"

text \<open>What one iteration of the profit tick reads from outside: the clock, the two values
  \<open>Decimal(str(random.random()))\<close> (for the variance and for the fluctuation), and the
  outcome of the test \<open>random.random() < 0.6\<close>.\<close>

record tick_draws =
  tick_now :: time
  r_variance :: rat
  above_target :: bool
  r_fluctuation :: rat

text \<open>\<open>potential_daily_profit\<close>: a rank, a positive locked balance and a non-zero percentage
  are all needed, otherwise the fixed 0.50.\<close>

definition potential_daily_profit :: "rank list \<Rightarrow> profile \<Rightarrow> money" where
  "potential_daily_profit ranks p =
     (case get_rank ranks p of
        Some r \<Rightarrow> (if locked_balance p > 0 \<and> daily_profit_pct r \<noteq> 0
                   then locked_balance p * (daily_profit_pct r / 100) else 50 / 100)
      | None \<Rightarrow> 50 / 100)"

definition max_trades_allowed :: "rank list \<Rightarrow> profile \<Rightarrow> int" where
  "max_trades_allowed ranks p = (case get_rank ranks p of Some r \<Rightarrow> copy_trades_limit r | None \<Rightarrow> 1)"

definition profit_per_trade :: "rank list \<Rightarrow> profile \<Rightarrow> money" where
  "profit_per_trade ranks p =
     (if max_trades_allowed ranks p > 0
      then potential_daily_profit ranks p / of_int (max_trades_allowed ranks p)
      else 50 / 100)"

definition target_profit :: "money \<Rightarrow> tick_draws \<Rightarrow> money" where
  "target_profit ppt dr =
     (let variance_percentage = 5 / 100;
          variance_amount = ppt * variance_percentage;
          variance = (5 / 10 + r_variance dr) * variance_amount;
          target = (if above_target dr then ppt + variance else ppt - variance)
      in max target (1 / 100))"

text \<open>The value assigned to \<open>trade.profit\<close> in one iteration.  \<open>progress\<close> is
  \<open>min(seconds_elapsed / 30, 1.0)\<close>; the rounding of that floating-point quotient is not
  modelled (it is exactly 1 from 30 seconds on).\<close>

definition current_profit :: "rank list \<Rightarrow> tick_draws \<Rightarrow> copy_trade \<Rightarrow> db \<Rightarrow> error + money" where
  "current_profit ranks dr trade s =
     (let seconds_elapsed = tick_now dr - created_at trade
      in if seconds_elapsed < 10 then Inr 0
         else
           let progress = min (seconds_elapsed / 30) 1
           in case profiles s (trade_user_id trade) of
                None \<Rightarrow> Inl RelatedObjectDoesNotExist
              | Some profile \<Rightarrow>
                  let fluctuation = 95 / 100 + 15 / 100 * r_fluctuation dr
                  in Inr (target_profit (profit_per_trade ranks profile) dr * progress * fluctuation))"

definition tick_trade :: "rank list \<Rightarrow> (nat \<Rightarrow> tick_draws) \<Rightarrow> copy_trade \<Rightarrow> db \<Rightarrow> error option \<times> db" where
  "tick_trade ranks draws trade s =
     (case current_profit ranks (draws (trade_id trade)) trade s of
        Inl e \<Rightarrow> (Some e, s)
      | Inr v \<Rightarrow> (None, save_trade_profit (trade_id trade) v s))"

text \<open>\<open>CopyTrade.objects.filter(status='pending')\<close>; \<open>draws i\<close> is what the iteration for
  the trade of key \<open>i\<close> reads.\<close>

definition pending_trades :: "db \<Rightarrow> copy_trade list" where
  "pending_trades s =
     sort_key (\<lambda>t. - created_at t) (filter (\<lambda>t. trade_status t = ''pending'') (copy_trades s))"

definition update_pending_trades_profit :: "rank list \<Rightarrow> (nat \<Rightarrow> tick_draws) \<Rightarrow> db \<Rightarrow> error option \<times> db" where
  "update_pending_trades_profit ranks draws s = for_each (tick_trade ranks draws) (pending_trades s) s"

section \<open>Deposit approval (views.admin_deposit_approve_view)\<close>




text \<open>\<open>Profile.update_rank\<close> of the in-memory profile \<open>p\<close> of user \<open>u\<close>: the rank column of
  the row is written only when the band found differs from the one held.\<close>

definition update_rank :: "rank list \<Rightarrow> nat \<Rightarrow> profile \<Rightarrow> db \<Rightarrow> db" where
  "update_rank ranks u p s =
     (let new_rank = map_option pk (get_rank ranks p)
      in if new_rank \<noteq> rank_id p then
           (case profiles s u of
              Some row \<Rightarrow> save_profile u (row\<lparr>rank_id := new_rank\<rparr>) s
            | None \<Rightarrow> s)
         else s)"

text \<open>\<open>profile.save(update_fields=['locked_balance'])\<close>: only that column of the row is written.\<close>

definition save_locked_balance :: "nat \<Rightarrow> profile \<Rightarrow> db \<Rightarrow> db" where
  "save_locked_balance u p s =
     (case profiles s u of
        Some row \<Rightarrow> save_profile u (row\<lparr>locked_balance := locked_balance p\<rparr>) s
      | None \<Rightarrow> s)"




section \<open>Promo redemption (views.referral_view)\<close>

text \<open>The primary key given to a new Deposit row: one not yet in the table.\<close>

definition next_dep_id :: "deposit list \<Rightarrow> nat" where
  "next_dep_id ds = Suc (foldr max (map dep_id ds) 0)"

definition promo_bonus :: "promo_code \<Rightarrow> rat \<Rightarrow> money" where
  "promo_bonus promo r = bonus_min promo + (bonus_max promo - bonus_min promo) * r"

definition promo_deposit :: "nat \<Rightarrow> nat \<Rightarrow> money \<Rightarrow> time \<Rightarrow> deposit" where
  "promo_deposit i u bonus now =
     \<lparr>dep_id = i, dep_user_id = u, dep_amount = bonus, network = ''PROMO'',
      wallet_address = ''PROMO_BONUS'', dep_status = ''approved'',
      expires_at = Some (now + 30 * 86400), approved_at = Some now, referrer_id = None\<rparr>"

text \<open>The POST branch of the view for a valid form: user \<open>u\<close> redeems the stripped code \<open>c\<close> at
  instant \<open>now\<close>; \<open>r\<close> is the value \<open>Decimal(str(random.random()))\<close>.  The four messages
  \<open>Invalid or expired promo code.\<close>, \<open>Promo code expired.\<close>, \<open>Usage limit reached.\<close> and
  \<open>Already redeemed.\<close> are the errors \<open>InvalidCode\<close>, \<open>Expired\<close>, \<open>ExhaustedUsage\<close> and
  \<open>AlreadyRedeemed\<close>.\<close>

definition referral_view :: "rank list \<Rightarrow> time \<Rightarrow> rat \<Rightarrow> nat \<Rightarrow> string \<Rightarrow> db \<Rightarrow> error option \<times> db" where
  "referral_view ranks now r u c s =
     (case profiles s u of
        None \<Rightarrow> (Some Http404, s)
      | Some profile \<Rightarrow>
          (case find (\<lambda>p. code p = c \<and> promo_status p = ''active'') (promo_codes s) of
             None \<Rightarrow> (Some InvalidCode, s)
           | Some promo \<Rightarrow>
               if (case expiration promo of None \<Rightarrow> False | Some e \<Rightarrow> e < now) then (Some Expired, s)
               else if (case usage_limit promo of None \<Rightarrow> False | Some l \<Rightarrow> usage_count promo \<ge> l)
                 then (Some ExhaustedUsage, s)
               else if (\<exists>x \<in> set (promo_redemptions s). red_user_id x = u \<and> red_promo_id x = promo_id promo)
                 then (Some AlreadyRedeemed, s)
               else
                 let bonus = promo_bonus promo r;
                     s1 = s\<lparr>deposits := deposits s @ [promo_deposit (next_dep_id (deposits s)) u bonus now]\<rparr>;
                     profile1 = profile\<lparr>locked_balance := locked_balance profile + bonus\<rparr>;
                     s2 = save_locked_balance u profile1 s1;
                     s3 = s2\<lparr>promo_redemptions := promo_redemptions s2 @
                            [\<lparr>red_user_id = u, red_promo_id = promo_id promo, red_bonus_amount = bonus\<rparr>]\<rparr>;
                     s4 = s3\<lparr>promo_codes :=
                            map (\<lambda>x. if promo_id x = promo_id promo
                                      then x\<lparr>usage_count := usage_count promo + 1\<rparr> else x)
                              (promo_codes s3)\<rparr>
                 in (None, update_rank ranks u profile1 s4)))"

section \<open>Wallet assignment (utils.get_available_wallet)\<close>

text \<open>The address lists of \<open>WALLETS\<close>.  In the first two lists the last two string
  literals stand without a comma between them, so Python joins them into one entry.\<close>

definition wallets_usdt_bep20 :: "string list" where
  "wallets_usdt_bep20 =
    [''0x330901bc8ccf6476cb6a007306a5d2956c62332f'',
     ''0x4ec0c6d5b98f9fc47a2a99f57e7e4e8e92682c2f'',
     ''0x04f3a91776e43bb59c71bb2afaf0a0d858d7ffa0'',
     ''0xe5e310431c70a968b72b2824a71ec17224f7cd36'',
     ''0xd581d94e502ef97fc86b6d7bf1cba75a2c648b68'',
     ''0x7b578382aad4f75eeb9b08562f4949ef338c3ea9'',
     ''0x04c6e95e6401e1be9ab6e1c6dfaaebfeb9c9aaa6'',
     ''0xffd403586721ed290a44789dfc6cdb3fb97d4fd8'',
     ''0x2031fe72f90f288402d6cf314465e9b9dc9ed5f9'',
     ''0xdf86438b45043cac8322ab640c3b469d6e0cf957'',
     ''0x2c4065c01719234225320ca06c4601bc804eba0c'',
     ''0x305744150872cd3d6e4b1dae5a63d021d1ea4446'',
     ''0xed6599dbb67c3a19718a6d28d8790a31519d399b'',
     ''0x4748dd0ce03b06ee02e6a5df4367e4c9e4c4b862'',
     ''0xd480edb456756967705d2e26dbf184445d7c0938'',
     ''0xea58f94a7cc15c7889790a1a18c239ea72a6e547'',
     ''0xa610e35baaa56950fd0de26dd3d4b1b101a350af'',
     ''0x31514d9fc3dc02b53bdd093346fd2c4e7b36997c'',
     ''0x636ab4ec55961f8ca0ed418fa1481f3ddf0907040xabaa1040a2d07fa7a9996b71a9c8ba7362191cbc'']"

definition wallets_usdt_erc20 :: "string list" where
  "wallets_usdt_erc20 =
    [''0x330901Bc8CCf6476CB6a007306a5d2956c62332F'',
     ''0x4ec0c6d5b98f9fc47a2a99f57e7e4e8e92682c2f'',
     ''0x04f3a91776e43bb59c71bb2afaf0a0d858d7ffa0'',
     ''0xe5e310431c70a968b72b2824a71ec17224f7cd36'',
     ''0xd581d94e502ef97fc86b6d7bf1cba75a2c648b68'',
     ''0x7b578382aad4f75eeb9b08562f4949ef338c3ea9'',
     ''0x04c6e95e6401e1be9ab6e1c6dfaaebfeb9c9aaa6'',
     ''0xffd403586721ed290a44789dfc6cdb3fb97d4fd8'',
     ''0x2031fe72f90f288402d6cf314465e9b9dc9ed5f9'',
     ''0xdf86438b45043cac8322ab640c3b469d6e0cf957'',
     ''0x2c4065c01719234225320ca06c4601bc804eba0c'',
     ''0x305744150872cd3d6e4b1dae5a63d021d1ea4446'',
     ''0xed6599dbb67c3a19718a6d28d8790a31519d399b'',
     ''0x4748dd0ce03b06ee02e6a5df4367e4c9e4c4b862'',
     ''0xd480edb456756967705d2e26dbf184445d7c0938'',
     ''0xea58f94a7cc15c7889790a1a18c239ea72a6e547'',
     ''0xa610e35baaa56950fd0de26dd3d4b1b101a350af'',
     ''0x31514d9fc3dc02b53bdd093346fd2c4e7b36997c'',
     ''0x636ab4ec55961f8ca0ed418fa1481f3ddf0907040xabaa1040a2d07fa7a9996b71a9c8ba7362191cbc'']"

definition wallets_solana :: "string list" where
  "wallets_solana =
    [''2nGvFch9BGccSe3Xi8Pj7YuMti17dtWBaaeEJJrHoyhh'',
     ''8gB7aMRedkJ3qzT6vpdw4nUHCzP2dgMUrTf3dP7amrLR'',
     ''CuJNKvLXEKTeVXd9JxdWAovRRneVYuyFtdgXTvMps1nx'',
     ''8QpPjcp6AYuxx7t5B8Zc1vnCnux52r25KUkWsQzSunUA'',
     ''gb3BDYKUUekLjhJeVD9ymEjM1ioaDZtoofqpnQg9QQL'',
     ''Ex6TiDeoZ259uF9eL25gM1RaWWGpH1Y1r4pboacbbtve'',
     ''AZ2H2DJyFA6j9XkzGkxjxAWVieEhAuzf6pL4yhtJScbD'',
     ''G3Jz8CbE9faNFntV3axDcp8ysZzaGnabaJ8TwdDCJj2q'',
     ''E7p8BKAYHEae3gT1WDgJGEFowvMw2ct1TRQCJRNuNoS7'',
     ''4bYjmHk4d31MwuBP46WbnkKQ5A8v2qcs6mmLN3c6iaqM'',
     ''Gf7PaeEKzWKNBRavhT3Naq3g4vjt1xFRrpUYRrGo2ExR'',
     ''5Z8sZL7nAwzRGV6WVn4u92uWCmvowaEEtKpoQ6hpn7yE'',
     ''EJBWbYWmrpF82r5ecx2TAD1HYhdPBLXWDARhQEp67htk'',
     ''J6vE7JWrrwz5ohaaXKj7ip4LCje6bqXFLLk1oYsxEzVm'',
     ''BVyF6raJJ9ZqcSKZSTGcRxkYyxhZSALjas1DqX9tGktN'',
     ''915CCxqqGuByF9bm28WDCH3SnSHKAPgZAQ1743sxFWHi'',
     ''FCPVJPTkGp7r4MCtGS42ZjUSEHsUrcmwujBneAiVXAv9'',
     ''J5y2QkNGPi7r4YAxEwLR1CQzpak9DNAMhKzywQE2mbc1'',
     ''E415hckrRyzkHxCYBNbddLCT2hBhPYogEjnhZdhQ8ky'',
     ''4JVxpWHGQ3BZ9Qib2zrKGbdip5QEhYrMGZzR8U3tZq3x'']"

definition wallets_ethereum :: "string list" where
  "wallets_ethereum =
    [''0x330901bc8ccf6476cb6a007306a5d2956c62332f'',
     ''0x4ec0c6d5b98f9fc47a2a99f57e7e4e8e92682c2f'',
     ''0x04f3a91776e43bb59c71bb2afaf0a0d858d7ffa0'',
     ''0xe5e310431c70a968b72b2824a71ec17224f7cd36'',
     ''0xd581d94e502ef97fc86b6d7bf1cba75a2c648b68'',
     ''0x7b578382aad4f75eeb9b08562f4949ef338c3ea9'',
     ''0x04c6e95e6401e1be9ab6e1c6dfaaebfeb9c9aaa6'',
     ''0xffd403586721ed290a44789dfc6cdb3fb97d4fd8'',
     ''0x2031fe72f90f288402d6cf314465e9b9dc9ed5f9'',
     ''0xdf86438b45043cac8322ab640c3b469d6e0cf957'',
     ''0x2c4065c01719234225320ca06c4601bc804eba0c'',
     ''0x305744150872cd3d6e4b1dae5a63d021d1ea4446'',
     ''0xed6599dbb67c3a19718a6d28d8790a31519d399b'',
     ''0x4748dd0ce03b06ee02e6a5df4367e4c9e4c4b862'',
     ''0xd480edb456756967705d2e26dbf184445d7c0938'',
     ''0xea58f94a7cc15c7889790a1a18c239ea72a6e547'',
     ''0xa610e35baaa56950fd0de26dd3d4b1b101a350af'',
     ''0x31514d9fc3dc02b53bdd093346fd2c4e7b36997c'',
     ''0x636ab4ec55961f8ca0ed418fa1481f3ddf090704'',
     ''0xabaa1040a2d07fa7a9996b71a9c8ba7362191cbc'']"

definition wallets_bnb_smartchain :: "string list" where
  "wallets_bnb_smartchain =
    [''0x330901bc8ccf6476cb6a007306a5d2956c62332f'',
     ''0x4ec0c6d5b98f9fc47a2a99f57e7e4e8e92682c2f'',
     ''0x04f3a91776e43bb59c71bb2afaf0a0d858d7ffa0'',
     ''0xe5e310431c70a968b72b2824a71ec17224f7cd36'',
     ''0xd581d94e502ef97fc86b6d7bf1cba75a2c648b68'',
     ''0x7b578382aad4f75eeb9b08562f4949ef338c3ea9'',
     ''0x04c6e95e6401e1be9ab6e1c6dfaaebfeb9c9aaa6'',
     ''0xffd403586721ed290a44789dfc6cdb3fb97d4fd8'',
     ''0x2031fe72f90f288402d6cf314465e9b9dc9ed5f9'',
     ''0xdf86438b45043cac8322ab640c3b469d6e0cf957'',
     ''0x2c4065c01719234225320ca06c4601bc804eba0c'',
     ''0x305744150872cd3d6e4b1dae5a63d021d1ea4446'',
     ''0xed6599dbb67c3a19718a6d28d8790a31519d399b'',
     ''0x4748dd0ce03b06ee02e6a5df4367e4c9e4c4b862'',
     ''0xd480edb456756967705d2e26dbf184445d7c0938'',
     ''0xea58f94a7cc15c7889790a1a18c239ea72a6e547'',
     ''0xa610e35baaa56950fd0de26dd3d4b1b101a350af'',
     ''0x31514d9fc3dc02b53bdd093346fd2c4e7b36997c'',
     ''0x636ab4ec55961f8ca0ed418fa1481f3ddf090704'',
     ''0xabaa1040a2d07fa7a9996b71a9c8ba7362191cbc'']"

definition WALLETS :: "(string \<times> string list) list" where
  "WALLETS =
    [(''USDT BEP20'', wallets_usdt_bep20),
     (''USDT ERC20'', wallets_usdt_erc20),
     (''Solana'', wallets_solana),
     (''Ethereum'', wallets_ethereum),
     (''BNB SmartChain'', wallets_bnb_smartchain)]"

text \<open>An entry of the cached dictionary \<open>wallet_assignments\<close>, kept as the list of its items
  in insertion order.\<close>

record assignment =
  a_user_id :: "nat option"
  a_network :: string
  timestamp :: time

type_synonym assignments = "(string \<times> assignment) list"

text \<open>\<open>WALLETS.get(network, WALLETS['USDT BEP20'])\<close>\<close>

definition all_wallets :: "string \<Rightarrow> string list" where
  "all_wallets net = (case map_of WALLETS net of Some l \<Rightarrow> l | None \<Rightarrow> wallets_usdt_bep20)"

text \<open>The sweep: entries younger than 300 seconds are kept.\<close>

definition cleaned_assignments :: "time \<Rightarrow> assignments \<Rightarrow> assignments" where
  "cleaned_assignments current_time asg = filter (\<lambda>(w, a). current_time - timestamp a < 300) asg"

text \<open>A wallet is available if it has no entry, or if \<open>user_id\<close> is truthy (given and not 0)
  and the entry is the user's own.\<close>

definition available_wallets :: "string list \<Rightarrow> nat option \<Rightarrow> assignments \<Rightarrow> string list" where
  "available_wallets ws uid cleaned =
     filter (\<lambda>w. case map_of cleaned w of
                   None \<Rightarrow> True
                 | Some a \<Rightarrow> (case uid of None \<Rightarrow> False | Some u \<Rightarrow> u \<noteq> 0 \<and> a_user_id a = uid)) ws"

text \<open>The timestamp of \<open>min(cleaned.keys(), key=timestamp)\<close>, for a dictionary whose first
  item has timestamp \<open>m\<close>.\<close>

fun oldest_time :: "time \<Rightarrow> assignments \<Rightarrow> time" where
  "oldest_time m [] = m"
| "oldest_time m ((w, a) # rest) = oldest_time (min m (timestamp a)) rest"

text \<open>\<open>cleaned[selected] = value\<close>\<close>

fun dict_set :: "string \<Rightarrow> assignment \<Rightarrow> assignments \<Rightarrow> assignments" where
  "dict_set k v [] = [(k, v)]"
| "dict_set k v ((k', v') # rest) = (if k' = k then (k, v) # rest else (k', v') # dict_set k v rest)"

text \<open>The function, at clock reading \<open>current_time\<close>; \<open>choice\<close> stands for the random index
  drawn by \<open>random.choice\<close>.  The result is \<open>(selected_wallet, None)\<close> or
  \<open>(None, time_remaining)\<close>, together with the dictionary written back to the cache.  \<open>min\<close>
  of an empty dictionary raises \<open>ValueError\<close>, \<open>random.choice\<close> of an empty list
  \<open>IndexError\<close>.\<close>

definition get_available_wallet ::
  "string \<Rightarrow> nat option \<Rightarrow> time \<Rightarrow> nat \<Rightarrow> assignments
     \<Rightarrow> (error + string option \<times> time option) \<times> assignments" where
  "get_available_wallet net uid current_time choice asg =
     (let cleaned = cleaned_assignments current_time asg;
          available = available_wallets (all_wallets net) uid cleaned
      in if available = [] then
           (case cleaned of
              [] \<Rightarrow> (Inl ValueError, cleaned)
            | (w, a) # rest \<Rightarrow>
                let time_remaining = 300 - (current_time - oldest_time (timestamp a) rest)
                in if time_remaining > 0 then (Inr (None, Some time_remaining), cleaned)
                   else (Inl IndexError, cleaned))
         else
           let selected = available ! (choice mod length available)
           in (Inr (Some selected, None),
               dict_set selected \<lparr>a_user_id = uid, a_network = net, timestamp = current_time\<rparr> cleaned))"

section \<open>Example data\<close>

text \<open>The two bands of the specification's scenario, as rows of the rank table.\<close>

definition band_low :: rank where
  "band_low = \<lparr>pk = 1, name = ''Low'', min_balance = 0, max_balance = Some 100,
     daily_profit_pct = 5, copy_trades_limit = 2\<rparr>"

definition band_high :: rank where
  "band_high = \<lparr>pk = 2, name = ''High'', min_balance = 100, max_balance = None,
     daily_profit_pct = 10, copy_trades_limit = 5\<rparr>"

definition new_profile :: profile where
  "new_profile = \<lparr>rank_id = None, locked_balance = 0, withdrawable_balance = 0,
     total_referrals = 0, valid_referrals = 0, referral_earnings = 0, last_withdrawal_at = None\<rparr>"

text \<open>A fetched deposit that the loop body leaves alone: its owner's locked balance is
  below its amount.\<close>

definition stuck :: "db \<Rightarrow> deposit \<Rightarrow> bool" where
  "stuck s d = (case profiles s (dep_user_id d) of None \<Rightarrow> False | Some p \<Rightarrow> locked_balance p < dep_amount d)"

text \<open>Example rows: an approved deposit of 100 and one of 10, both past their expiry at
  instant 1, owned by user 1.\<close>

definition deposit_100 :: deposit where
  "deposit_100 = \<lparr>dep_id = 1, dep_user_id = 1, dep_amount = 100, network = ''USDT BEP20'',
     wallet_address = ''0x330901bc8ccf6476cb6a007306a5d2956c62332f'', dep_status = ''approved'',
     expires_at = Some 0, approved_at = Some (-30), referrer_id = None\<rparr>"

definition deposit_10 :: deposit where
  "deposit_10 = \<lparr>dep_id = 2, dep_user_id = 1, dep_amount = 10, network = ''PROMO'',
     wallet_address = ''PROMO_BONUS'', dep_status = ''approved'',
     expires_at = Some 1, approved_at = Some (-29), referrer_id = None\<rparr>"

text \<open>User 1 holds 5 locked, less than the expired deposit of 10.\<close>

definition short_db :: db where
  "short_db = empty_db\<lparr>profiles := [1 \<mapsto> new_profile\<lparr>locked_balance := 5\<rparr>],
     deposits := [deposit_10]\<rparr>"

text \<open>User 1 holds 105 locked in the high band; both deposits have expired.\<close>

definition two_deposits_db :: db where
  "two_deposits_db = empty_db\<lparr>profiles := [1 \<mapsto> new_profile\<lparr>locked_balance := 105, rank_id := Some 2\<rparr>],
     deposits := [deposit_100, deposit_10]\<rparr>"

text \<open>Example: user 1 holds 99 locked with the low band stored, and a pending trade
  created at instant 0 whose stored profit is 2.\<close>

definition trade_2 :: copy_trade where
  "trade_2 = \<lparr>trade_id = 1, trade_user_id = 1, profit = 2, trade_status = ''pending'', created_at = 0\<rparr>"

definition trade_db :: db where
  "trade_db = empty_db\<lparr>profiles := [1 \<mapsto> new_profile\<lparr>locked_balance := 99, rank_id := Some 1\<rparr>],
     copy_trades := [trade_2]\<rparr>"

text \<open>Draws for one tick at instant 40: the variance draw 0.9 on the upper side, the
  fluctuation draw 0.99; and draws for a tick at instant 5.\<close>

definition draws_high :: tick_draws where
  "draws_high = \<lparr>tick_now = 40, r_variance = 9 / 10, above_target = True, r_fluctuation = 99 / 100\<rparr>"

definition draws_early :: tick_draws where
  "draws_early = \<lparr>tick_now = 5, r_variance = 1 / 2, above_target = False, r_fluctuation = 1 / 2\<rparr>"



text \<open>The database of \<open>trade_db\<close> after its trade has been completed.\<close>

definition trade_db_completed :: db where
  "trade_db_completed = trade_db\<lparr>copy_trades := [trade_2\<lparr>trade_status := ''completed''\<rparr>],
     profiles := [1 \<mapsto> new_profile\<lparr>locked_balance := 99, rank_id := Some 1, withdrawable_balance := 2\<rparr>]\<rparr>"



text \<open>A promo code worth 5 to 15, usable twice until instant 1000; user 1 redeems it at
  instant 50 with draw 1/2.\<close>

definition promo_welcome :: promo_code where
  "promo_welcome = \<lparr>promo_id = 3, code = ''WELCOME'', bonus_min = 5, bonus_max = 15,
     expiration = Some 1000, usage_limit = Some 2, usage_count = 0, promo_status = ''active''\<rparr>"

definition promo_db :: db where
  "promo_db = empty_db\<lparr>profiles := [1 \<mapsto> new_profile], promo_codes := [promo_welcome]\<rparr>"

definition promo_db_redeemed :: db where
  "promo_db_redeemed = promo_db\<lparr>
     profiles := [1 \<mapsto> new_profile\<lparr>locked_balance := 10, rank_id := Some 1\<rparr>],
     deposits := [promo_deposit 1 1 10 50],
     promo_codes := [promo_welcome\<lparr>usage_count := 1\<rparr>],
     promo_redemptions := [\<lparr>red_user_id = 1, red_promo_id = 3, red_bonus_amount = 10\<rparr>]\<rparr>"

text \<open>A wallet is free for user \<open>u\<close> under the swept dictionary if it has no entry there, or
  its entry is held by \<open>u\<close>.\<close>

definition wallet_free_for :: "assignments \<Rightarrow> nat \<Rightarrow> string \<Rightarrow> bool" where
  "wallet_free_for cleaned u w =
     (map_of cleaned w = None \<or> (\<exists>a. map_of cleaned w = Some a \<and> a_user_id a = Some u))"

text \<open>Every Solana address assigned to user 2 at instant 100.\<close>

definition solana_taken :: assignments where
  "solana_taken = map (\<lambda>w. (w, \<lparr>a_user_id = Some 2, a_network = ''Solana'', timestamp = 100\<rparr>)) wallets_solana"

section \<open>Rank lookup\<close>

lemma get_rank_loop_Some:
  "get_rank_loop pb rs = Some r \<Longrightarrow> r \<in> set rs \<and> band_holds r pb"
  by (induction rs) (auto simp: band_holds_def split: if_splits option.splits)

lemma get_rank_loop_lowest:
  "sorted (map min_balance rs) \<Longrightarrow> get_rank_loop pb rs = Some r \<Longrightarrow> r' \<in> set rs \<Longrightarrow>
   band_holds r' pb \<Longrightarrow> min_balance r \<le> min_balance r'"
proof (induction rs)
  case Nil
  then show ?case by simp
next
  case (Cons a rs)
  show ?case
  proof (cases "band_holds a pb")
    case True
    then have "r = a" using Cons.prems(2) by (auto simp: band_holds_def split: option.splits)
    then show ?thesis using Cons.prems(1,3) by auto
  next
    case False
    then have "get_rank_loop pb rs = Some r"
      using Cons.prems(2) by (auto simp: band_holds_def split: if_splits option.splits)
    moreover have "r' \<in> set rs" using Cons.prems(3,4) False by auto
    ultimately show ?thesis using Cons.IH Cons.prems(1,4) by simp
  qed
qed

lemma get_rank_loop_None:
  "get_rank_loop pb rs = None \<Longrightarrow> r \<in> set rs \<Longrightarrow> \<not> band_holds r pb"
  by (induction rs) (auto simp: band_holds_def split: if_splits option.splits)

text \<open>C2 as stated fails: with bands 0..100 and 100.., a principal of exactly 100 is given
  the lower band, which the half-open reading excludes, and not the higher one.\<close>

theorem get_rank_boundary_counterexample:
  "get_rank [band_low, band_high] (new_profile\<lparr>locked_balance := 100\<rparr>) = Some band_low
   \<and> \<not> spec_band_contains band_low (principal_balance (new_profile\<lparr>locked_balance := 100\<rparr>))
   \<and> spec_band_contains band_high (principal_balance (new_profile\<lparr>locked_balance := 100\<rparr>))"
  by (simp add: get_rank_def ranks_by_min_balance_def principal_balance_def new_profile_def
      band_low_def band_high_def spec_band_contains_def)

text \<open>C2, amended: the lookup returns nothing when the principal is not positive; otherwise it
  returns a band of the table whose closed interval \<open>[min_balance, max_balance]\<close> holds the
  principal, and among all such bands one of least \<open>min_balance\<close>; it returns nothing only
  if no band holds the principal.  At the boundary shared by two contiguous bands the
  higher band is therefore not selected.\<close>

theorem get_rank_closed_band:
  "(principal_balance p \<le> 0 \<longrightarrow> get_rank ranks p = None)
   \<and> (\<forall>r. get_rank ranks p = Some r \<longrightarrow>
         0 < principal_balance p \<and> r \<in> set ranks \<and> band_holds r (principal_balance p)
         \<and> (\<forall>r' \<in> set ranks. band_holds r' (principal_balance p) \<longrightarrow> min_balance r \<le> min_balance r'))
   \<and> (0 < principal_balance p \<and> get_rank ranks p = None \<longrightarrow>
         (\<forall>r \<in> set ranks. \<not> band_holds r (principal_balance p)))
   \<and> (\<forall>lo hi. lo \<in> set ranks \<and> min_balance lo < min_balance hi
         \<and> max_balance lo = Some (min_balance hi)
         \<and> principal_balance p = min_balance hi \<longrightarrow> get_rank ranks p \<noteq> Some hi)"
proof (intro conjI allI impI)
  assume "principal_balance p \<le> 0"
  then show "get_rank ranks p = None" by (simp add: get_rank_def)
next
  fix r assume r: "get_rank ranks p = Some r"
  then show pos: "0 < principal_balance p" by (auto simp: get_rank_def split: if_splits)
  from r pos have l: "get_rank_loop (principal_balance p) (sort_key min_balance ranks) = Some r"
    by (simp add: get_rank_def ranks_by_min_balance_def)
  from get_rank_loop_Some[OF l] show "r \<in> set ranks" by simp
  from get_rank_loop_Some[OF l] show "band_holds r (principal_balance p)" by simp
  show "\<forall>r' \<in> set ranks. band_holds r' (principal_balance p) \<longrightarrow> min_balance r \<le> min_balance r'"
    using get_rank_loop_lowest[OF _ l] by auto
next
  assume "0 < principal_balance p \<and> get_rank ranks p = None"
  then have "get_rank_loop (principal_balance p) (sort_key min_balance ranks) = None"
    by (auto simp: get_rank_def ranks_by_min_balance_def split: if_splits)
  from get_rank_loop_None[OF this]
  show "\<forall>r \<in> set ranks. \<not> band_holds r (principal_balance p)" by auto
next
  fix lo :: rank and hi :: rank
  assume a: "lo \<in> set ranks \<and> min_balance lo < min_balance hi
         \<and> max_balance lo = Some (min_balance hi)
         \<and> principal_balance p = min_balance hi"
  show "get_rank ranks p \<noteq> Some hi"
  proof
    assume h: "get_rank ranks p = Some hi"
    then have pos: "0 < principal_balance p" by (auto simp: get_rank_def split: if_splits)
    with h have l: "get_rank_loop (principal_balance p) (sort_key min_balance ranks) = Some hi"
      by (simp add: get_rank_def ranks_by_min_balance_def)
    have "band_holds lo (principal_balance p)" using a by (simp add: band_holds_def)
    with get_rank_loop_lowest[OF _ l, of lo] a have "min_balance hi \<le> min_balance lo" by simp
    with a show False by simp
  qed
qed

theorem get_rank_closed_band_witness:
  "get_rank [band_low, band_high] (new_profile\<lparr>locked_balance := 100\<rparr>) = Some band_low
   \<and> band_holds band_low 100 \<and> band_holds band_high 100
   \<and> get_rank [band_low, band_high] (new_profile\<lparr>locked_balance := 100\<rparr>) \<noteq> Some band_high
   \<and> get_rank [band_low, band_high] new_profile = None"
  using get_rank_closed_band [of "new_profile\<lparr>locked_balance := 100\<rparr>" "[band_low, band_high]"]
    get_rank_closed_band [of new_profile "[band_low, band_high]"]
  by (simp add: get_rank_def ranks_by_min_balance_def principal_balance_def new_profile_def
      band_low_def band_high_def band_holds_def)

section \<open>Expiry of deposits\<close>

lemma for_each_invariant:
  assumes "\<forall>x \<in> set xs. \<forall>s e s'. I s \<longrightarrow> body x s = (e, s') \<longrightarrow> I s'"
    and "I s" and "for_each body xs s = (e, s')"
  shows "I s'"
  using assms
proof (induction xs arbitrary: s)
  case Nil
  then show ?case by simp
next
  case (Cons x xs)
  obtain e1 s1 where b: "body x s = (e1, s1)" by (cases "body x s")
  have both: "(\<forall>s e s'. I s \<longrightarrow> body x s = (e, s') \<longrightarrow> I s') \<and>
      (\<forall>x \<in> set xs. \<forall>s e s'. I s \<longrightarrow> body x s = (e, s') \<longrightarrow> I s')"
    using Cons.prems(1) by (simp only: list.set ball_simps insert_iff ball_Un)
  then have I1: "I s1" using Cons.prems(2) b by blast
  have step: "\<forall>x \<in> set xs. \<forall>s e s'. I s \<longrightarrow> body x s = (e, s') \<longrightarrow> I s'"
    using both by blast
  show ?case
  proof (cases e1)
    case None
    then have "for_each body xs s1 = (e, s')" using Cons.prems(3) b by simp
    from Cons.IH[OF step I1 this] show ?thesis .
  next
    case (Some a)
    then show ?thesis using Cons.prems(3) b I1 by simp
  qed
qed

lemma expire_deposit_skip:
  "profiles s (dep_user_id d) = Some p \<Longrightarrow> locked_balance p < dep_amount d \<Longrightarrow>
   expire_deposit ranks d s = (None, s)"
  by (simp add: expire_deposit_def)

lemma expire_deposit_debit:
  assumes "profiles s (dep_user_id d) = Some p" "dep_amount d \<le> locked_balance p"
  shows "expire_deposit ranks d s =
    (None, s\<lparr>profiles := (profiles s)(dep_user_id d \<mapsto>
                 p\<lparr>locked_balance := locked_balance p - dep_amount d,
                   rank_id := map_option pk (get_rank ranks (p\<lparr>locked_balance := locked_balance p - dep_amount d\<rparr>))\<rparr>),
              deposits := map (\<lambda>x. if dep_id x = dep_id d then x\<lparr>dep_status := ''expired''\<rparr> else x) (deposits s),
              notifications := notifications s @
                (if rank_id p \<noteq> map_option pk (get_rank ranks (p\<lparr>locked_balance := locked_balance p - dep_amount d\<rparr>))
                 then [(dep_user_id d, demotion_message ranks (rank_id p)
                         (map_option pk (get_rank ranks (p\<lparr>locked_balance := locked_balance p - dep_amount d\<rparr>))))]
                 else [])\<rparr>)"
proof -
  have same: "\<And>q::profile. \<And>l X. rank_id q = X \<Longrightarrow> q\<lparr>locked_balance := l, rank_id := X\<rparr> = q\<lparr>locked_balance := l\<rparr>"
    by simp
  show ?thesis
    using assms
    by (auto simp: expire_deposit_def Let_def save_profile_def save_deposit_status_def same)
qed

lemma expire_deposit_debit_fst:
  assumes "profiles s (dep_user_id d) = Some p" "dep_amount d \<le> locked_balance p"
  shows "fst (expire_deposit ranks d s) = None"
  by (simp add: expire_deposit_debit[OF assms])

lemma expire_deposit_debit_profiles:
  assumes "profiles s (dep_user_id d) = Some p" "dep_amount d \<le> locked_balance p"
  shows "profiles (snd (expire_deposit ranks d s)) = (profiles s)(dep_user_id d \<mapsto>
                 p\<lparr>locked_balance := locked_balance p - dep_amount d,
                   rank_id := map_option pk (get_rank ranks (p\<lparr>locked_balance := locked_balance p - dep_amount d\<rparr>))\<rparr>)"
  by (simp add: expire_deposit_debit[OF assms])

lemma expire_deposit_debit_deposits:
  assumes "profiles s (dep_user_id d) = Some p" "dep_amount d \<le> locked_balance p"
  shows "deposits (snd (expire_deposit ranks d s)) =
     map (\<lambda>x. if dep_id x = dep_id d then x\<lparr>dep_status := ''expired''\<rparr> else x) (deposits s)"
  by (simp add: expire_deposit_debit[OF assms])

lemma expire_deposit_debit_notifications:
  assumes "profiles s (dep_user_id d) = Some p" "dep_amount d \<le> locked_balance p"
  shows "notifications (snd (expire_deposit ranks d s)) = notifications s @
                (if rank_id p \<noteq> map_option pk (get_rank ranks (p\<lparr>locked_balance := locked_balance p - dep_amount d\<rparr>))
                 then [(dep_user_id d, demotion_message ranks (rank_id p)
                         (map_option pk (get_rank ranks (p\<lparr>locked_balance := locked_balance p - dep_amount d\<rparr>))))]
                 else [])"
  by (simp add: expire_deposit_debit[OF assms])

lemma expire_deposit_missing:
  "profiles s (dep_user_id d) = None \<Longrightarrow> expire_deposit ranks d s = (Some RelatedObjectDoesNotExist, s)"
  by (simp add: expire_deposit_def)

lemma expire_deposit_cases:
  assumes "expire_deposit ranks d s = (e, s')"
  obtains (missing) "profiles s (dep_user_id d) = None" "e = Some RelatedObjectDoesNotExist" "s' = s"
  | (skip) p where "profiles s (dep_user_id d) = Some p" "locked_balance p < dep_amount d" "e = None" "s' = s"
  | (debit) p where "profiles s (dep_user_id d) = Some p" "dep_amount d \<le> locked_balance p" "e = None"
      "profiles s' = (profiles s)(dep_user_id d \<mapsto>
                 p\<lparr>locked_balance := locked_balance p - dep_amount d,
                   rank_id := map_option pk (get_rank ranks (p\<lparr>locked_balance := locked_balance p - dep_amount d\<rparr>))\<rparr>)"
      "deposits s' = map (\<lambda>x. if dep_id x = dep_id d then x\<lparr>dep_status := ''expired''\<rparr> else x) (deposits s)"
proof (cases "profiles s (dep_user_id d)")
  case None
  from expire_deposit_missing[OF None, of ranks] assms have "e = Some RelatedObjectDoesNotExist" "s' = s"
    by simp_all
  with None missing show ?thesis by blast
next
  case (Some p)
  show ?thesis
  proof (cases "dep_amount d \<le> locked_balance p")
    case True
    have e: "e = None" using expire_deposit_debit_fst[OF Some True, of ranks] assms by simp
    have s': "s' = snd (expire_deposit ranks d s)" using assms by simp
    from debit[OF Some True e] expire_deposit_debit_profiles[OF Some True, of ranks]
      expire_deposit_debit_deposits[OF Some True, of ranks] s'
    show ?thesis by blast
  next
    case False
    then have lt: "locked_balance p < dep_amount d" by simp
    from expire_deposit_skip[OF Some lt, of ranks] assms have "e = None" "s' = s" by simp_all
    with skip[OF Some lt] show ?thesis by blast
  qed
qed

lemma expire_deposit_locked_mono:
  assumes "0 \<le> dep_amount d" "expire_deposit ranks d s = (e, s')" "profiles s u = Some q"
  shows "\<exists>q'. profiles s' u = Some q' \<and> locked_balance q' \<le> locked_balance q"
  using assms(2)
proof (cases rule: expire_deposit_cases)
  case missing
  then show ?thesis using assms(3) by simp
next
  case (skip p)
  then show ?thesis using assms(3) by simp
next
  case (debit p)
  then show ?thesis using assms(1,3) by (cases "u = dep_user_id d") auto
qed

lemma expire_deposit_stuck:
  assumes "0 \<le> dep_amount d" "expire_deposit ranks d s = (e, s')" "stuck s y"
  shows "stuck s' y"
proof -
  from assms(3) obtain q where q: "profiles s (dep_user_id y) = Some q" "locked_balance q < dep_amount y"
    by (auto simp: stuck_def split: option.splits)
  from expire_deposit_locked_mono[OF assms(1,2) q(1)] q(2) show ?thesis
    by (auto simp: stuck_def)
qed

lemma for_each_expire_stuck:
  assumes "\<forall>x \<in> set xs. 0 \<le> dep_amount x" "for_each (expire_deposit ranks) xs s = (e, s')" "stuck s y"
  shows "stuck s' y"
proof -
  have "\<forall>x \<in> set xs. \<forall>s e s'. stuck s y \<longrightarrow> expire_deposit ranks x s = (e, s') \<longrightarrow> stuck s' y"
    using assms(1) expire_deposit_stuck by blast
  from for_each_invariant[where I = "\<lambda>s. stuck s y", OF this assms(3) assms(2)] show ?thesis .
qed

lemma expire_deposit_approved_rows:
  assumes "expire_deposit ranks d s = (e, s')" "y \<in> set (deposits s')" "dep_status y = ''approved''"
  shows "y \<in> set (deposits s)"
  using assms(1)
proof (cases rule: expire_deposit_cases)
  case (debit p)
  then show ?thesis using assms(2,3) by (auto split: if_splits)
qed (use assms in auto)

lemma for_each_expire_approved_rows:
  assumes "for_each (expire_deposit ranks) xs s = (e, s')"
  shows "y \<in> set (deposits s') \<and> dep_status y = ''approved'' \<longrightarrow> y \<in> set (deposits s)"
proof -
  show ?thesis
    using assms
  proof (induction xs arbitrary: s)
    case Nil
    then show ?case by simp
  next
    case (Cons x xs)
    obtain e1 s1 where b: "expire_deposit ranks x s = (e1, s1)" by (cases "expire_deposit ranks x s")
    show ?case
    proof (cases e1)
      case None
      then have "for_each (expire_deposit ranks) xs s1 = (e, s')" using Cons.prems b by simp
      from Cons.IH[OF this] expire_deposit_approved_rows[OF b] show ?thesis by blast
    next
      case (Some a)
      then have "s' = s1" using Cons.prems b by simp
      then show ?thesis using expire_deposit_approved_rows[OF b] by blast
    qed
  qed
qed

lemma expire_deposit_done:
  assumes "expire_deposit ranks d s = (None, s')" "\<not> stuck s d" "y \<in> set (deposits s')" "dep_id y = dep_id d"
  shows "dep_status y = ''expired''"
  using assms(1)
proof (cases rule: expire_deposit_cases)
  case (debit p)
  then show ?thesis using assms(3,4) by auto
next
  case (skip p)
  then show ?thesis using assms(2) by (simp add: stuck_def)
qed simp

lemma for_each_expire_leaves_stuck:
  assumes "\<forall>x \<in> set xs. 0 \<le> dep_amount x" "for_each (expire_deposit ranks) xs s = (None, s')"
    "y \<in> set xs" "y \<in> set (deposits s')" "dep_status y = ''approved''"
  shows "stuck s' y"
  using assms(1,2,3)
proof (induction xs arbitrary: s)
  case Nil
  then show ?case by simp
next
  case (Cons x xs)
  obtain e1 s1 where b: "expire_deposit ranks x s = (e1, s1)" by (cases "expire_deposit ranks x s")
  have e1: "e1 = None" using Cons.prems(2) b by (cases e1) auto
  have rest: "for_each (expire_deposit ranks) xs s1 = (None, s')" using Cons.prems(2) b e1 by simp
  have amounts: "\<forall>x \<in> set xs. 0 \<le> dep_amount x" using Cons.prems(1) by simp
  show ?case
  proof (cases "y \<in> set xs")
    case True
    from Cons.IH[OF amounts rest True] show ?thesis .
  next
    case False
    then have yx: "y = x" using Cons.prems(3) by simp
    show ?thesis
    proof (cases "stuck s x")
      case True
      have "stuck s1 x" using expire_deposit_stuck[OF _ b True] Cons.prems(1) by simp
      from for_each_expire_stuck[OF amounts rest this] yx show ?thesis by simp
    next
      case False
      have "y \<in> set (deposits s1)" using for_each_expire_approved_rows[OF rest, of y] assms(4,5) by simp
      from expire_deposit_done[OF b[unfolded e1] False this] yx assms(5) show ?thesis by simp
    qed
  qed
qed

lemma for_each_expire_all_stuck:
  "\<forall>x \<in> set xs. stuck s x \<Longrightarrow> for_each (expire_deposit ranks) xs s = (None, s)"
proof (induction xs)
  case Nil
  then show ?case by simp
next
  case (Cons x xs)
  then have "expire_deposit ranks x s = (None, s)"
    by (auto simp: stuck_def expire_deposit_skip split: option.splits)
  then show ?case using Cons by simp
qed

lemma expire_deposit_nonneg:
  assumes "expire_deposit ranks d s = (e, s')"
    and "\<exists>q. profiles s u = Some q \<and> 0 \<le> locked_balance q"
  shows "\<exists>q. profiles s' u = Some q \<and> 0 \<le> locked_balance q"
  using assms(1)
proof (cases rule: expire_deposit_cases)
  case missing
  then show ?thesis using assms(2) by simp
next
  case (skip p)
  then show ?thesis using assms(2) by simp
next
  case (debit p)
  then show ?thesis using assms(2) by (cases "u = dep_user_id d") auto
qed

lemma for_each_expire_nonneg:
  assumes "for_each (expire_deposit ranks) xs s = (e, s')"
    and "\<exists>q. profiles s u = Some q \<and> 0 \<le> locked_balance q"
  shows "\<exists>q. profiles s' u = Some q \<and> 0 \<le> locked_balance q"
proof -
  have "\<forall>x \<in> set xs. \<forall>s e s'. (\<exists>q. profiles s u = Some q \<and> 0 \<le> locked_balance q) \<longrightarrow>
      expire_deposit ranks x s = (e, s') \<longrightarrow> (\<exists>q. profiles s' u = Some q \<and> 0 \<le> locked_balance q)"
    using expire_deposit_nonneg by blast
  from for_each_invariant[where I = "\<lambda>s. \<exists>q. profiles s u = Some q \<and> 0 \<le> locked_balance q",
      OF this assms(2) assms(1)]
  show ?thesis .
qed

text \<open>C3 as stated fails: when the owner's locked balance is below the amount of an expired
  deposit, the pass returns normally and leaves the whole database as it was, the
  notification table included: nothing is reported.\<close>

theorem process_expired_deposits_silent_counterexample:
  "expired_deposits 1 short_db = [deposit_10]
   \<and> stuck short_db deposit_10
   \<and> process_expired_deposits [band_low, band_high] 1 short_db = (None, short_db)
   \<and> notifications short_db = []"
  by (simp add: process_expired_deposits_def expired_deposits_def short_db_def empty_db_def
      deposit_10_def stuck_def expire_deposit_def new_profile_def)

text \<open>C3, amended: the reaper visits exactly the approved deposits with \<open>expires_at <= now\<close>,
  in \<open>approved_at\<close> order.  For a visited deposit whose owner's locked balance (in the state
  \<open>t\<close> reached so far) is at least the amount, it debits the locked balance by exactly the
  amount, marks the deposit expired, stores the recomputed rank, and appends a demotion
  notification if and only if the recomputed rank differs from the stored one.  If the
  locked balance is below the amount, the deposit is skipped silently: the state is
  unchanged and nothing is reported.  A locked balance that is not negative before the
  pass is not negative after it.\<close>

theorem process_expired_deposits_step:
  "process_expired_deposits ranks now s = for_each (expire_deposit ranks) (expired_deposits now s) s
   \<and> set (expired_deposits now s) =
       {d \<in> set (deposits s). dep_status d = ''approved'' \<and> (\<exists>e. expires_at d = Some e \<and> e \<le> now)}
   \<and> sorted (map approved_at (expired_deposits now s))
   \<and> (profiles t (dep_user_id d) = Some p \<and> dep_amount d \<le> locked_balance p \<longrightarrow>
        expire_deposit ranks d t =
          (None, t\<lparr>profiles := (profiles t)(dep_user_id d \<mapsto>
                 p\<lparr>locked_balance := locked_balance p - dep_amount d,
                   rank_id := map_option pk (get_rank ranks (p\<lparr>locked_balance := locked_balance p - dep_amount d\<rparr>))\<rparr>),
              deposits := map (\<lambda>x. if dep_id x = dep_id d then x\<lparr>dep_status := ''expired''\<rparr> else x) (deposits t),
              notifications := notifications t @
                (if rank_id p \<noteq> map_option pk (get_rank ranks (p\<lparr>locked_balance := locked_balance p - dep_amount d\<rparr>))
                 then [(dep_user_id d, demotion_message ranks (rank_id p)
                         (map_option pk (get_rank ranks (p\<lparr>locked_balance := locked_balance p - dep_amount d\<rparr>))))]
                 else [])\<rparr>))
   \<and> (profiles t (dep_user_id d) = Some p \<and> locked_balance p < dep_amount d \<longrightarrow>
        expire_deposit ranks d t = (None, t))
   \<and> (profiles s u = Some q \<and> 0 \<le> locked_balance q \<longrightarrow>
        (\<exists>q'. profiles (snd (process_expired_deposits ranks now s)) u = Some q' \<and> 0 \<le> locked_balance q'))"
proof (intro conjI impI)
  show "process_expired_deposits ranks now s = for_each (expire_deposit ranks) (expired_deposits now s) s"
    by (simp add: process_expired_deposits_def)
  show "set (expired_deposits now s) =
       {d \<in> set (deposits s). dep_status d = ''approved'' \<and> (\<exists>e. expires_at d = Some e \<and> e \<le> now)}"
    by (auto simp: expired_deposits_def split: option.splits)
  show "sorted (map approved_at (expired_deposits now s))"
    by (simp add: expired_deposits_def)
next
  assume "profiles t (dep_user_id d) = Some p \<and> dep_amount d \<le> locked_balance p"
  then show "expire_deposit ranks d t =
          (None, t\<lparr>profiles := (profiles t)(dep_user_id d \<mapsto>
                 p\<lparr>locked_balance := locked_balance p - dep_amount d,
                   rank_id := map_option pk (get_rank ranks (p\<lparr>locked_balance := locked_balance p - dep_amount d\<rparr>))\<rparr>),
              deposits := map (\<lambda>x. if dep_id x = dep_id d then x\<lparr>dep_status := ''expired''\<rparr> else x) (deposits t),
              notifications := notifications t @
                (if rank_id p \<noteq> map_option pk (get_rank ranks (p\<lparr>locked_balance := locked_balance p - dep_amount d\<rparr>))
                 then [(dep_user_id d, demotion_message ranks (rank_id p)
                         (map_option pk (get_rank ranks (p\<lparr>locked_balance := locked_balance p - dep_amount d\<rparr>))))]
                 else [])\<rparr>)"
    using expire_deposit_debit by blast
next
  assume "profiles t (dep_user_id d) = Some p \<and> locked_balance p < dep_amount d"
  then show "expire_deposit ranks d t = (None, t)"
    using expire_deposit_skip by blast
next
  assume a: "profiles s u = Some q \<and> 0 \<le> locked_balance q"
  obtain e s' where r: "for_each (expire_deposit ranks) (expired_deposits now s) s = (e, s')"
    by (cases "for_each (expire_deposit ranks) (expired_deposits now s) s")
  from for_each_expire_nonneg[OF r, of u] a
  show "\<exists>q'. profiles (snd (process_expired_deposits ranks now s)) u = Some q' \<and> 0 \<le> locked_balance q'"
    by (simp add: process_expired_deposits_def r)
qed

theorem process_expired_deposits_step_witness:
  "profiles two_deposits_db (dep_user_id deposit_100) = Some (new_profile\<lparr>locked_balance := 105, rank_id := Some 2\<rparr>)
   \<and> dep_amount deposit_100 \<le> locked_balance (new_profile\<lparr>locked_balance := 105, rank_id := Some 2\<rparr>)
   \<and> expire_deposit [band_low, band_high] deposit_100 two_deposits_db =
      (None, two_deposits_db\<lparr>profiles := [1 \<mapsto> new_profile\<lparr>locked_balance := 5, rank_id := Some 1\<rparr>],
         deposits := [deposit_100\<lparr>dep_status := ''expired''\<rparr>, deposit_10],
         notifications := [(1, ''Your rank has been demoted from High to Low due to expired deposit.'')]\<rparr>)
   \<and> profiles short_db (dep_user_id deposit_10) = Some (new_profile\<lparr>locked_balance := 5\<rparr>)
   \<and> locked_balance (new_profile\<lparr>locked_balance := 5\<rparr>) < dep_amount deposit_10
   \<and> expire_deposit [band_low, band_high] deposit_10 short_db = (None, short_db)
   \<and> (\<exists>q'. profiles (snd (process_expired_deposits [band_low, band_high] 1 two_deposits_db)) 1 = Some q'
         \<and> 0 \<le> locked_balance q')"
proof -
  have h1: "profiles two_deposits_db (dep_user_id deposit_100) = Some (new_profile\<lparr>locked_balance := 105, rank_id := Some 2\<rparr>)
     \<and> dep_amount deposit_100 \<le> locked_balance (new_profile\<lparr>locked_balance := 105, rank_id := Some 2\<rparr>)"
    by (simp add: two_deposits_db_def empty_db_def deposit_100_def new_profile_def)
  have h2: "profiles short_db (dep_user_id deposit_10) = Some (new_profile\<lparr>locked_balance := 5\<rparr>)
     \<and> locked_balance (new_profile\<lparr>locked_balance := 5\<rparr>) < dep_amount deposit_10"
    by (simp add: short_db_def empty_db_def deposit_10_def new_profile_def)
  have h3: "profiles two_deposits_db 1 = Some (new_profile\<lparr>locked_balance := 105, rank_id := Some 2\<rparr>)
     \<and> 0 \<le> locked_balance (new_profile\<lparr>locked_balance := 105, rank_id := Some 2\<rparr>)"
    by (simp add: two_deposits_db_def empty_db_def new_profile_def)
  have a: "expire_deposit [band_low, band_high] deposit_100 two_deposits_db =
      (None, two_deposits_db\<lparr>profiles := [1 \<mapsto> new_profile\<lparr>locked_balance := 5, rank_id := Some 1\<rparr>],
         deposits := [deposit_100\<lparr>dep_status := ''expired''\<rparr>, deposit_10],
         notifications := [(1, ''Your rank has been demoted from High to Low due to expired deposit.'')]\<rparr>)"
    using process_expired_deposits_step [of "[band_low, band_high]" 1 two_deposits_db two_deposits_db deposit_100
        "new_profile\<lparr>locked_balance := 105, rank_id := Some 2\<rparr>" 1
        "new_profile\<lparr>locked_balance := 105, rank_id := Some 2\<rparr>"] h1
    by (simp add: two_deposits_db_def empty_db_def deposit_100_def deposit_10_def
        new_profile_def get_rank_def ranks_by_min_balance_def principal_balance_def
        band_low_def band_high_def demotion_message_def rank_name_def)
  have b: "expire_deposit [band_low, band_high] deposit_10 short_db = (None, short_db)"
    using process_expired_deposits_step [of "[band_low, band_high]" 1 short_db short_db deposit_10
        "new_profile\<lparr>locked_balance := 5\<rparr>" 1 "new_profile\<lparr>locked_balance := 5\<rparr>"] h2
    by blast
  have c: "\<exists>q'. profiles (snd (process_expired_deposits [band_low, band_high] 1 two_deposits_db)) 1 = Some q'
         \<and> 0 \<le> locked_balance q'"
    using process_expired_deposits_step [of "[band_low, band_high]" 1 two_deposits_db two_deposits_db deposit_100
        "new_profile\<lparr>locked_balance := 105, rank_id := Some 2\<rparr>" 1
        "new_profile\<lparr>locked_balance := 105, rank_id := Some 2\<rparr>"] h3
    by blast
  from h1 h2 a b c show ?thesis by blast
qed

text \<open>C9: a second pass of the reaper at the same instant changes nothing, whenever the
  first pass returned and no deposit amount is negative (amounts are deposits of at least
  the minimum, or promo bonuses).\<close>

theorem process_expired_deposits_idempotent:
  assumes "\<forall>d \<in> set (deposits s). 0 \<le> dep_amount d"
    and "process_expired_deposits ranks now s = (None, s1)"
  shows "process_expired_deposits ranks now s1 = (None, s1)"
proof -
  have run: "for_each (expire_deposit ranks) (expired_deposits now s) s = (None, s1)"
    using assms(2) by (simp add: process_expired_deposits_def)
  have amounts: "\<forall>x \<in> set (expired_deposits now s). 0 \<le> dep_amount x"
    using assms(1) by (simp add: expired_deposits_def)
  have "\<forall>y \<in> set (expired_deposits now s1). stuck s1 y"
  proof
    fix y assume y: "y \<in> set (expired_deposits now s1)"
    then have y1: "y \<in> set (deposits s1)" "dep_status y = ''approved''"
      and yt: "(case expires_at y of None \<Rightarrow> False | Some e \<Rightarrow> e \<le> now)"
      by (simp_all add: expired_deposits_def)
    have "y \<in> set (deposits s)" using for_each_expire_approved_rows[OF run, of y] y1 by simp
    then have "y \<in> set (expired_deposits now s)" using y1(2) yt by (simp add: expired_deposits_def)
    from for_each_expire_leaves_stuck[OF amounts run this y1] show "stuck s1 y" .
  qed
  from for_each_expire_all_stuck[OF this] show ?thesis by (simp add: process_expired_deposits_def)
qed


theorem process_expired_deposits_idempotent_witness:
  "map dep_amount (deposits two_deposits_db) = [100, 10]
   \<and> process_expired_deposits [band_low, band_high] 1
        (snd (process_expired_deposits [band_low, band_high] 1 two_deposits_db))
      = (None, snd (process_expired_deposits [band_low, band_high] 1 two_deposits_db))
   \<and> map dep_status (deposits (snd (process_expired_deposits [band_low, band_high] 1 two_deposits_db)))
      = [''expired'', ''approved'']"
proof -
  have amounts: "\<forall>d \<in> set (deposits two_deposits_db). 0 \<le> dep_amount d"
    by (simp add: two_deposits_db_def empty_db_def deposit_100_def deposit_10_def)
  have stepA: "expire_deposit [band_low, band_high] deposit_100 two_deposits_db =
      (None, two_deposits_db\<lparr>profiles := [1 \<mapsto> new_profile\<lparr>locked_balance := 5, rank_id := Some 1\<rparr>],
         deposits := [deposit_100\<lparr>dep_status := ''expired''\<rparr>, deposit_10],
         notifications := [(1, ''Your rank has been demoted from High to Low due to expired deposit.'')]\<rparr>)"
    by (simp add: expire_deposit_def two_deposits_db_def empty_db_def deposit_100_def deposit_10_def
        new_profile_def Let_def save_profile_def save_deposit_status_def get_rank_def
        ranks_by_min_balance_def principal_balance_def band_low_def band_high_def
        demotion_message_def rank_name_def)
  have query: "expired_deposits 1 two_deposits_db = [deposit_100, deposit_10]"
    by (simp add: expired_deposits_def two_deposits_db_def empty_db_def deposit_100_def deposit_10_def)
  have run: "process_expired_deposits [band_low, band_high] 1 two_deposits_db =
      (None, two_deposits_db\<lparr>profiles := [1 \<mapsto> new_profile\<lparr>locked_balance := 5, rank_id := Some 1\<rparr>],
         deposits := [deposit_100\<lparr>dep_status := ''expired''\<rparr>, deposit_10],
         notifications := [(1, ''Your rank has been demoted from High to Low due to expired deposit.'')]\<rparr>)"
    unfolding process_expired_deposits_def query
    by (simp add: stepA) (simp add: expire_deposit_def deposit_10_def new_profile_def)
  have listed: "map dep_amount (deposits two_deposits_db) = [100, 10]"
    by (simp add: two_deposits_db_def empty_db_def deposit_100_def deposit_10_def)
  show ?thesis
    using process_expired_deposits_idempotent [OF amounts run] listed
    by (simp add: run deposit_100_def deposit_10_def)
qed

section \<open>Copy trades\<close>

lemma target_profit_pos: "1 / 100 \<le> target_profit ppt dr"
  by (simp add: target_profit_def Let_def)

lemma current_profit_nonneg:
  assumes "current_profit ranks dr trade s = Inr v" "0 \<le> r_fluctuation dr"
  shows "0 \<le> v"
proof (cases "tick_now dr - created_at trade < 10")
  case True
  then show ?thesis using assms(1) by (simp add: current_profit_def Let_def)
next
  case False
  then obtain p where p: "profiles s (trade_user_id trade) = Some p"
    using assms(1) by (auto simp: current_profit_def Let_def split: option.splits)
  have v: "v = target_profit (profit_per_trade ranks p) dr * min ((tick_now dr - created_at trade) / 30) 1
       * (95 / 100 + 15 / 100 * r_fluctuation dr)"
    using assms(1) False p by (simp add: current_profit_def Let_def)
  have a: "0 \<le> target_profit (profit_per_trade ranks p) dr"
    using target_profit_pos[of "profit_per_trade ranks p" dr] by simp
  have b: "0 \<le> min ((tick_now dr - created_at trade) / 30) 1" using False by simp
  have c: "0 \<le> 95 / 100 + 15 / 100 * r_fluctuation dr" using assms(2) by simp
  show ?thesis unfolding v using a b c by simp
qed

lemma current_profit_pinned:
  "tick_now dr - created_at trade < 10 \<Longrightarrow> current_profit ranks dr trade s = Inr 0"
  by (simp add: current_profit_def Let_def)

lemma tick_trade_keeps_row:
  assumes "tick_trade ranks draws x s = (e, s')" "trade_id x \<noteq> trade_id y" "y \<in> set (copy_trades s)"
  shows "y \<in> set (copy_trades s')"
proof (cases "current_profit ranks (draws (trade_id x)) x s")
  case (Inl a)
  then show ?thesis using assms by (simp add: tick_trade_def)
next
  case (Inr v)
  then have "s' = save_trade_profit (trade_id x) v s" using assms(1) by (simp add: tick_trade_def)
  then show ?thesis using assms(2,3) by (force simp: save_trade_profit_def)
qed

lemma complete_trade_keeps_row:
  assumes "complete_trade x s = (e, s')" "trade_id x \<noteq> trade_id y" "y \<in> set (copy_trades s)"
  shows "y \<in> set (copy_trades s')"
proof -
  have "copy_trades s' = copy_trades (save_trade_status (trade_id x) ''completed'' s)"
    using assms(1) by (auto simp: complete_trade_def Let_def save_profile_def split: option.splits)
  then show ?thesis using assms(2,3) by (force simp: save_trade_status_def)
qed

lemma other_ids:
  assumes "distinct (map trade_id ts)" "y \<in> set ts" "trade_status y \<noteq> ''pending''"
    "x \<in> set ts" "trade_status x = ''pending''"
  shows "trade_id x \<noteq> trade_id y"
proof
  assume "trade_id x = trade_id y"
  then have "x = y" using assms(1,2,4) by (meson distinct_map inj_onD)
  then show False using assms(3,5) by simp
qed

lemma update_pending_trades_profit_frozen:
  assumes "distinct (map trade_id (copy_trades s))" "y \<in> set (copy_trades s)" "trade_status y \<noteq> ''pending''"
  shows "y \<in> set (copy_trades (snd (update_pending_trades_profit ranks draws s)))"
proof -
  obtain e s' where r: "for_each (tick_trade ranks draws) (pending_trades s) s = (e, s')"
    by (cases "for_each (tick_trade ranks draws) (pending_trades s) s")
  have "\<forall>x \<in> set (pending_trades s). trade_id x \<noteq> trade_id y"
    using other_ids[OF assms] by (simp add: pending_trades_def)
  then have "\<forall>x \<in> set (pending_trades s). \<forall>s e s'. y \<in> set (copy_trades s) \<longrightarrow>
      tick_trade ranks draws x s = (e, s') \<longrightarrow> y \<in> set (copy_trades s')"
    using tick_trade_keeps_row by blast
  from for_each_invariant[where I = "\<lambda>s. y \<in> set (copy_trades s)", OF this assms(2) r]
  show ?thesis by (simp add: update_pending_trades_profit_def r)
qed

lemma complete_pending_trades_frozen:
  assumes "distinct (map trade_id (copy_trades s))" "y \<in> set (copy_trades s)" "trade_status y \<noteq> ''pending''"
  shows "y \<in> set (copy_trades (snd (complete_pending_trades now s)))"
proof -
  obtain e s' where r: "for_each complete_trade (trades_to_complete now s) s = (e, s')"
    by (cases "for_each complete_trade (trades_to_complete now s) s")
  have "\<forall>x \<in> set (trades_to_complete now s). trade_id x \<noteq> trade_id y"
    using other_ids[OF assms] by (simp add: trades_to_complete_def)
  then have "\<forall>x \<in> set (trades_to_complete now s). \<forall>s e s'. y \<in> set (copy_trades s) \<longrightarrow>
      complete_trade x s = (e, s') \<longrightarrow> y \<in> set (copy_trades s')"
    using complete_trade_keeps_row by blast
  from for_each_invariant[where I = "\<lambda>s. y \<in> set (copy_trades s)", OF this assms(2) r]
  show ?thesis by (simp add: complete_pending_trades_def r)
qed

lemma complete_trade_credit:
  assumes "profiles s (trade_user_id trade) = Some p"
  shows "complete_trade trade s =
    (None, s\<lparr>copy_trades := map (\<lambda>x. if trade_id x = trade_id trade then x\<lparr>trade_status := ''completed''\<rparr> else x) (copy_trades s),
             profiles := (profiles s)(trade_user_id trade \<mapsto>
                p\<lparr>withdrawable_balance := withdrawable_balance p + profit trade\<rparr>)\<rparr>)"
  using assms by (simp add: complete_trade_def Let_def save_trade_status_def save_profile_def)

lemma complete_trade_None:
  assumes "complete_trade x s = (None, s')"
  obtains p where "profiles s (trade_user_id x) = Some p"
    "profiles s' = (profiles s)(trade_user_id x \<mapsto> p\<lparr>withdrawable_balance := withdrawable_balance p + profit x\<rparr>)"
    "copy_trades s' = map (\<lambda>y. if trade_id y = trade_id x then y\<lparr>trade_status := ''completed''\<rparr> else y) (copy_trades s)"
proof (cases "profiles s (trade_user_id x)")
  case None
  then show ?thesis using assms by (simp add: complete_trade_def Let_def save_trade_status_def)
next
  case (Some p)
  have s': "s' = snd (complete_trade x s)" using assms by simp
  have a: "profiles s' = (profiles s)(trade_user_id x \<mapsto> p\<lparr>withdrawable_balance := withdrawable_balance p + profit x\<rparr>)"
    unfolding s' by (simp add: complete_trade_credit[OF Some])
  have b: "copy_trades s' = map (\<lambda>y. if trade_id y = trade_id x then y\<lparr>trade_status := ''completed''\<rparr> else y) (copy_trades s)"
    unfolding s' by (simp add: complete_trade_credit[OF Some])
  from that[OF Some a b] show ?thesis .
qed

lemma for_each_complete_credit:
  assumes "for_each complete_trade xs s = (None, s')"
  shows "profiles s' u = map_option
     (\<lambda>p. p\<lparr>withdrawable_balance := withdrawable_balance p
            + sum_list (map profit (filter (\<lambda>t. trade_user_id t = u) xs))\<rparr>) (profiles s u)"
  using assms
proof (induction xs arbitrary: s)
  case Nil
  then show ?case by (cases "profiles s u") auto
next
  case (Cons x xs)
  obtain e1 s1 where b: "complete_trade x s = (e1, s1)" by (cases "complete_trade x s")
  have e1: "e1 = None" using Cons.prems b by (cases e1) auto
  have rest: "for_each complete_trade xs s1 = (None, s')" using Cons.prems b e1 by simp
  from b[unfolded e1] obtain p where p: "profiles s (trade_user_id x) = Some p"
    "profiles s1 = (profiles s)(trade_user_id x \<mapsto> p\<lparr>withdrawable_balance := withdrawable_balance p + profit x\<rparr>)"
    by (rule complete_trade_None)
  show ?case
  proof (cases "trade_user_id x = u")
    case True
    then show ?thesis using Cons.IH[OF rest] p by (simp add: add.assoc)
  next
    case False
    then show ?thesis using Cons.IH[OF rest] p by simp
  qed
qed

lemma for_each_complete_pending_rows:
  assumes "for_each complete_trade xs s = (None, s')" "y \<in> set (copy_trades s')" "trade_status y = ''pending''"
  shows "y \<in> set (copy_trades s) \<and> trade_id y \<notin> trade_id ` set xs"
  using assms(1)
proof (induction xs arbitrary: s)
  case Nil
  then show ?case using assms(2) by simp
next
  case (Cons x xs)
  obtain e1 s1 where b: "complete_trade x s = (e1, s1)" by (cases "complete_trade x s")
  have e1: "e1 = None" using Cons.prems b by (cases e1) auto
  have rest: "for_each complete_trade xs s1 = (None, s')" using Cons.prems b e1 by simp
  from b[unfolded e1] obtain p where
    ct: "copy_trades s1 = map (\<lambda>y. if trade_id y = trade_id x then y\<lparr>trade_status := ''completed''\<rparr> else y) (copy_trades s)"
    by (rule complete_trade_None)
  from Cons.IH[OF rest] have y1: "y \<in> set (copy_trades s1)" "trade_id y \<notin> trade_id ` set xs" by simp_all
  from y1(1) ct assms(3) have "y \<in> set (copy_trades s) \<and> trade_id y \<noteq> trade_id x"
    by (auto split: if_splits)
  with y1(2) show ?case by simp
qed

lemma complete_pending_trades_once:
  assumes "complete_pending_trades now s = (None, s1)"
  shows "trades_to_complete now s1 = []" "complete_pending_trades now s1 = (None, s1)"
proof -
  have run: "for_each complete_trade (trades_to_complete now s) s = (None, s1)"
    using assms by (simp add: complete_pending_trades_def)
  have none: "y \<notin> set (trades_to_complete now s1)" for y
  proof
    assume y: "y \<in> set (trades_to_complete now s1)"
    then have y1: "y \<in> set (copy_trades s1)" "trade_status y = ''pending''" "created_at y \<le> now - 35"
      by (simp_all add: trades_to_complete_def)
    from for_each_complete_pending_rows[OF run y1(1,2)]
    have y2: "y \<in> set (copy_trades s)" "trade_id y \<notin> trade_id ` set (trades_to_complete now s)" by simp_all
    have "y \<in> set (trades_to_complete now s)"
      using y2(1) y1(2,3) by (simp add: trades_to_complete_def)
    with y2(2) show False by blast
  qed
  show e: "trades_to_complete now s1 = []"
  proof (cases "trades_to_complete now s1")
    case Nil
    then show ?thesis .
  next
    case (Cons a list)
    then have "a \<in> set (trades_to_complete now s1)" by simp
    with none show ?thesis by blast
  qed
  show "complete_pending_trades now s1 = (None, s1)"
    by (simp add: complete_pending_trades_def e)
qed


lemma trade_db_run: "complete_pending_trades 40 trade_db = (None, trade_db_completed)"
  by (simp add: complete_pending_trades_def trades_to_complete_def complete_trade_def Let_def
      save_trade_status_def save_profile_def trade_db_def trade_db_completed_def trade_2_def
      empty_db_def new_profile_def)

text \<open>C1 fails on trade completion.  User 1 holds 99 locked with the low band stored, as
  the lookup gives for a principal of 99.  Completing a trade with profit 2 credits the
  withdrawable balance, so the principal is 101, whose band is the high one; the stored
  rank is still the low band, because \<open>complete_pending_trades\<close> does not recompute it.\<close>

theorem complete_pending_trades_stale_rank:
  "rank_id (new_profile\<lparr>locked_balance := 99, rank_id := Some 1\<rparr>)
     = map_option pk (get_rank [band_low, band_high] (new_profile\<lparr>locked_balance := 99, rank_id := Some 1\<rparr>))
   \<and> complete_pending_trades 40 trade_db =
       (None, trade_db\<lparr>copy_trades := [trade_2\<lparr>trade_status := ''completed''\<rparr>],
          profiles := [1 \<mapsto> new_profile\<lparr>locked_balance := 99, rank_id := Some 1, withdrawable_balance := 2\<rparr>]\<rparr>)
   \<and> principal_balance (new_profile\<lparr>locked_balance := 99, rank_id := Some 1, withdrawable_balance := 2\<rparr>) = 101
   \<and> map_option pk (get_rank [band_low, band_high]
         (new_profile\<lparr>locked_balance := 99, rank_id := Some 1, withdrawable_balance := 2\<rparr>)) = Some 2"
  using trade_db_run
  by (simp add: trade_db_completed_def new_profile_def
      get_rank_def ranks_by_min_balance_def principal_balance_def band_low_def band_high_def)

text \<open>C7: the profit computed for a trade is never negative when the fluctuation draw is not
  negative (\<open>random.random()\<close> lies in \<open>[0, 1)\<close>), and is 0 while the trade is younger than
  10 seconds.  A trade that is no longer pending is left as it is by the profit tick and by
  the completion pass (primary keys being distinct).  Completing a trade marks it completed
  and credits its owner's withdrawable balance with exactly its stored profit; after a
  completion pass that returned, every owner has been credited the sum of the profits of
  the trades that pass completed, no trade remains to complete, and running the pass
  again at that instant changes nothing.\<close>

theorem copy_trade_profit_lifecycle:
  "(current_profit ranks dr trade s = Inr v \<and> 0 \<le> r_fluctuation dr \<longrightarrow> 0 \<le> v)
   \<and> (tick_now dr - created_at trade < 10 \<longrightarrow> current_profit ranks dr trade s = Inr 0)
   \<and> (distinct (map trade_id (copy_trades s)) \<and> y \<in> set (copy_trades s) \<and> trade_status y \<noteq> ''pending'' \<longrightarrow>
        y \<in> set (copy_trades (snd (update_pending_trades_profit ranks draws s)))
        \<and> y \<in> set (copy_trades (snd (complete_pending_trades now s))))
   \<and> (profiles s (trade_user_id trade) = Some p \<longrightarrow>
        complete_trade trade s =
          (None, s\<lparr>copy_trades := map (\<lambda>x. if trade_id x = trade_id trade
                                           then x\<lparr>trade_status := ''completed''\<rparr> else x) (copy_trades s),
                   profiles := (profiles s)(trade_user_id trade \<mapsto>
                      p\<lparr>withdrawable_balance := withdrawable_balance p + profit trade\<rparr>)\<rparr>))
   \<and> (complete_pending_trades now s = (None, s1) \<longrightarrow>
        (\<forall>u. profiles s1 u = map_option
           (\<lambda>q. q\<lparr>withdrawable_balance := withdrawable_balance q
              + sum_list (map profit (filter (\<lambda>t. trade_user_id t = u) (trades_to_complete now s)))\<rparr>)
           (profiles s u))
        \<and> trades_to_complete now s1 = []
        \<and> complete_pending_trades now s1 = (None, s1))"
proof (intro conjI impI allI)
  assume "current_profit ranks dr trade s = Inr v \<and> 0 \<le> r_fluctuation dr"
  then show "0 \<le> v" using current_profit_nonneg by blast
next
  assume "tick_now dr - created_at trade < 10"
  then show "current_profit ranks dr trade s = Inr 0" by (rule current_profit_pinned)
next
  assume a: "distinct (map trade_id (copy_trades s)) \<and> y \<in> set (copy_trades s) \<and> trade_status y \<noteq> ''pending''"
  then show "y \<in> set (copy_trades (snd (update_pending_trades_profit ranks draws s)))"
    using update_pending_trades_profit_frozen by blast
  from a show "y \<in> set (copy_trades (snd (complete_pending_trades now s)))"
    using complete_pending_trades_frozen by blast
next
  assume "profiles s (trade_user_id trade) = Some p"
  then show "complete_trade trade s =
          (None, s\<lparr>copy_trades := map (\<lambda>x. if trade_id x = trade_id trade
                                           then x\<lparr>trade_status := ''completed''\<rparr> else x) (copy_trades s),
                   profiles := (profiles s)(trade_user_id trade \<mapsto>
                      p\<lparr>withdrawable_balance := withdrawable_balance p + profit trade\<rparr>)\<rparr>)"
    by (rule complete_trade_credit)
next
  fix u
  assume "complete_pending_trades now s = (None, s1)"
  then have "for_each complete_trade (trades_to_complete now s) s = (None, s1)"
    by (simp add: complete_pending_trades_def)
  then show "profiles s1 u = map_option
           (\<lambda>q. q\<lparr>withdrawable_balance := withdrawable_balance q
              + sum_list (map profit (filter (\<lambda>t. trade_user_id t = u) (trades_to_complete now s)))\<rparr>)
           (profiles s u)"
    by (rule for_each_complete_credit)
next
  assume r: "complete_pending_trades now s = (None, s1)"
  from complete_pending_trades_once[OF r] show "trades_to_complete now s1 = []"
    and "complete_pending_trades now s1 = (None, s1)" by simp_all
qed

theorem copy_trade_profit_lifecycle_witness:
  "current_profit [band_low, band_high] draws_early trade_2 trade_db = Inr 0
   \<and> complete_pending_trades 40 trade_db = (None, trade_db_completed)
   \<and> profiles trade_db_completed 1
      = Some (new_profile\<lparr>locked_balance := 99, rank_id := Some 1, withdrawable_balance := 2\<rparr>)
   \<and> complete_pending_trades 40 trade_db_completed = (None, trade_db_completed)
   \<and> trade_2\<lparr>trade_status := ''completed''\<rparr>
        \<in> set (copy_trades (snd (update_pending_trades_profit [band_low, band_high] (\<lambda>i. draws_high) trade_db_completed)))"
proof -
  note L = copy_trade_profit_lifecycle [where ranks = "[band_low, band_high]" and dr = draws_early
      and trade = trade_2 and s = trade_db and now = 40 and ?s1.0 = trade_db_completed]
  note M = copy_trade_profit_lifecycle [where ranks = "[band_low, band_high]" and dr = draws_early
      and trade = trade_2 and s = trade_db_completed and y = "trade_2\<lparr>trade_status := ''completed''\<rparr>"
      and draws = "\<lambda>i. draws_high"]
  have early: "tick_now draws_early - created_at trade_2 < 10"
    by (simp add: draws_early_def trade_2_def)
  have a: "current_profit [band_low, band_high] draws_early trade_2 trade_db = Inr 0"
    using L early by blast
  have b: "complete_pending_trades 40 trade_db_completed = (None, trade_db_completed)"
    using L trade_db_run by blast
  have c: "profiles trade_db_completed 1
      = Some (new_profile\<lparr>locked_balance := 99, rank_id := Some 1, withdrawable_balance := 2\<rparr>)"
    by (simp add: trade_db_completed_def)
  have d: "distinct (map trade_id (copy_trades trade_db_completed))
      \<and> trade_2\<lparr>trade_status := ''completed''\<rparr> \<in> set (copy_trades trade_db_completed)
      \<and> trade_status (trade_2\<lparr>trade_status := ''completed''\<rparr>) \<noteq> ''pending''"
    by (simp add: trade_db_completed_def)
  have e: "trade_2\<lparr>trade_status := ''completed''\<rparr>
        \<in> set (copy_trades (snd (update_pending_trades_profit [band_low, band_high] (\<lambda>i. draws_high) trade_db_completed)))"
    using M d by blast
  from a b c e trade_db_run show ?thesis by blast
qed












section \<open>Deposit approval\<close>

lemma update_rank_profiles:
  assumes "profiles s u = Some row" "rank_id row = rank_id p"
  shows "profiles (update_rank ranks u p s) = (profiles s)(u \<mapsto> row\<lparr>rank_id := map_option pk (get_rank ranks p)\<rparr>)"
proof (cases "map_option pk (get_rank ranks p) = rank_id p")
  case True
  then have "row\<lparr>rank_id := map_option pk (get_rank ranks p)\<rparr> = row" using assms(2) by simp
  then show ?thesis using True assms(1) by (simp add: update_rank_def Let_def map_upd_triv)
next
  case False
  then show ?thesis using assms(1) by (simp add: update_rank_def Let_def save_profile_def)
qed

lemma update_rank_tables:
  "deposits (update_rank ranks u p s) = deposits s"
  "local_deposits (update_rank ranks u p s) = local_deposits s"
  "copy_trades (update_rank ranks u p s) = copy_trades s"
  "referrals (update_rank ranks u p s) = referrals s"
  "promo_codes (update_rank ranks u p s) = promo_codes s"
  "promo_redemptions (update_rank ranks u p s) = promo_redemptions s"
  "notifications (update_rank ranks u p s) = notifications s"
  by (simp_all add: update_rank_def Let_def save_profile_def split: option.splits)

lemma save_locked_balance_profiles:
  "profiles s u = Some row \<Longrightarrow>
   profiles (save_locked_balance u p s) = (profiles s)(u \<mapsto> row\<lparr>locked_balance := locked_balance p\<rparr>)"
  by (simp add: save_locked_balance_def save_profile_def)

lemma save_locked_balance_tables:
  "deposits (save_locked_balance u p s) = deposits s"
  "local_deposits (save_locked_balance u p s) = local_deposits s"
  "copy_trades (save_locked_balance u p s) = copy_trades s"
  "referrals (save_locked_balance u p s) = referrals s"
  "promo_codes (save_locked_balance u p s) = promo_codes s"
  "promo_redemptions (save_locked_balance u p s) = promo_redemptions s"
  "notifications (save_locked_balance u p s) = notifications s"
  by (simp_all add: save_locked_balance_def save_profile_def split: option.splits)








section \<open>Promo redemption\<close>

lemma find_map_same:
  assumes "\<And>x. P (g x) = P x"
  shows "find P (map g xs) = map_option g (find P xs)"
  by (induction xs) (simp_all add: assms)



lemma referral_view_success:
  assumes "profiles s u = Some p"
    and "find (\<lambda>x. code x = c \<and> promo_status x = ''active'') (promo_codes s) = Some promo"
    and "\<not> (\<exists>e. expiration promo = Some e \<and> e < now)"
    and "\<not> (\<exists>l. usage_limit promo = Some l \<and> l \<le> usage_count promo)"
    and "\<not> (\<exists>x \<in> set (promo_redemptions s). red_user_id x = u \<and> red_promo_id x = promo_id promo)"
  shows "referral_view ranks now r u c s =
    (None, update_rank ranks u (p\<lparr>locked_balance := locked_balance p + promo_bonus promo r\<rparr>)
      ((save_locked_balance u (p\<lparr>locked_balance := locked_balance p + promo_bonus promo r\<rparr>)
         (s\<lparr>deposits := deposits s @ [promo_deposit (next_dep_id (deposits s)) u (promo_bonus promo r) now]\<rparr>))
        \<lparr>promo_redemptions := promo_redemptions s @
            [\<lparr>red_user_id = u, red_promo_id = promo_id promo, red_bonus_amount = promo_bonus promo r\<rparr>],
         promo_codes := map (\<lambda>x. if promo_id x = promo_id promo
                                  then x\<lparr>usage_count := usage_count promo + 1\<rparr> else x) (promo_codes s)\<rparr>))"
proof -
  have e: "\<not> (case expiration promo of None \<Rightarrow> False | Some e \<Rightarrow> e < now)"
    using assms(3) by (auto split: option.splits)
  have l: "\<not> (case usage_limit promo of None \<Rightarrow> False | Some l \<Rightarrow> l \<le> usage_count promo)"
    using assms(4) by (auto split: option.splits)
  show ?thesis
    using assms(1,2,5) e l
    by (simp add: referral_view_def Let_def save_locked_balance_tables)
qed

lemma referral_view_cascade:
  assumes "profiles s u = Some p"
    and "find (\<lambda>x. code x = c \<and> promo_status x = ''active'') (promo_codes s) = Some promo"
  shows "(\<exists>e. expiration promo = Some e \<and> e < now) \<Longrightarrow> referral_view ranks now r u c s = (Some Expired, s)"
    and "\<not> (\<exists>e. expiration promo = Some e \<and> e < now) \<Longrightarrow> (\<exists>l. usage_limit promo = Some l \<and> l \<le> usage_count promo)
       \<Longrightarrow> referral_view ranks now r u c s = (Some ExhaustedUsage, s)"
    and "\<not> (\<exists>e. expiration promo = Some e \<and> e < now) \<Longrightarrow> \<not> (\<exists>l. usage_limit promo = Some l \<and> l \<le> usage_count promo)
       \<Longrightarrow> (\<exists>x \<in> set (promo_redemptions s). red_user_id x = u \<and> red_promo_id x = promo_id promo)
       \<Longrightarrow> referral_view ranks now r u c s = (Some AlreadyRedeemed, s)"
  using assms by (auto simp: referral_view_def split: option.splits)

lemma referral_view_redeemed_fails:
  assumes "profiles s u = Some p"
    and "find (\<lambda>x. code x = c \<and> promo_status x = ''active'') (promo_codes s) = Some promo"
    and "\<exists>x \<in> set (promo_redemptions s). red_user_id x = u \<and> red_promo_id x = promo_id promo"
  shows "fst (referral_view ranks now r u c s) \<noteq> None \<and> snd (referral_view ranks now r u c s) = s"
proof (cases "\<exists>e. expiration promo = Some e \<and> e < now")
  case True
  from referral_view_cascade(1)[OF assms(1,2) True] show ?thesis by simp
next
  case False
  note ne = this
  show ?thesis
  proof (cases "\<exists>l. usage_limit promo = Some l \<and> l \<le> usage_count promo")
    case True
    from referral_view_cascade(2)[OF assms(1,2) ne True] show ?thesis by simp
  next
    case False
    from referral_view_cascade(3)[OF assms(1,2) ne False assms(3)] show ?thesis by simp
  qed
qed

lemma referral_view_failure_unchanged:
  "fst (referral_view ranks now r u c s) \<noteq> None \<Longrightarrow> snd (referral_view ranks now r u c s) = s"
  by (auto simp: referral_view_def Let_def split: option.splits if_splits)

lemma referral_view_None:
  assumes "referral_view ranks now r u c s = (None, s1)"
  obtains p promo where "profiles s u = Some p"
    "find (\<lambda>x. code x = c \<and> promo_status x = ''active'') (promo_codes s) = Some promo"
    "\<not> (\<exists>e. expiration promo = Some e \<and> e < now)"
    "\<not> (\<exists>l. usage_limit promo = Some l \<and> l \<le> usage_count promo)"
    "\<not> (\<exists>x \<in> set (promo_redemptions s). red_user_id x = u \<and> red_promo_id x = promo_id promo)"
proof (cases "profiles s u")
  case None
  then show ?thesis using assms by (simp add: referral_view_def)
next
  case (Some p)
  show ?thesis
  proof (cases "find (\<lambda>x. code x = c \<and> promo_status x = ''active'') (promo_codes s)")
    case None
    then show ?thesis using assms Some by (simp add: referral_view_def)
  next
    case (Some promo)
    note f = this
    have a: "\<not> (\<exists>e. expiration promo = Some e \<and> e < now)"
      using referral_view_cascade(1)[OF \<open>profiles s u = Some p\<close> f, of now ranks r] assms by auto
    have b: "\<not> (\<exists>l. usage_limit promo = Some l \<and> l \<le> usage_count promo)"
      using referral_view_cascade(2)[OF \<open>profiles s u = Some p\<close> f a, of ranks r] assms by auto
    have c: "\<not> (\<exists>x \<in> set (promo_redemptions s). red_user_id x = u \<and> red_promo_id x = promo_id promo)"
      using referral_view_cascade(3)[OF \<open>profiles s u = Some p\<close> f a b, of ranks r] assms by auto
    from that[OF \<open>profiles s u = Some p\<close> f a b c] show ?thesis .
  qed
qed

lemma referral_view_success_tables:
  assumes "profiles s u = Some p"
    and "find (\<lambda>x. code x = c \<and> promo_status x = ''active'') (promo_codes s) = Some promo"
    and "\<not> (\<exists>e. expiration promo = Some e \<and> e < now)"
    and "\<not> (\<exists>l. usage_limit promo = Some l \<and> l \<le> usage_count promo)"
    and "\<not> (\<exists>x \<in> set (promo_redemptions s). red_user_id x = u \<and> red_promo_id x = promo_id promo)"
  shows "fst (referral_view ranks now r u c s) = None"
    and "deposits (snd (referral_view ranks now r u c s)) =
           deposits s @ [promo_deposit (next_dep_id (deposits s)) u (promo_bonus promo r) now]"
    and "profiles (snd (referral_view ranks now r u c s)) = (profiles s)(u \<mapsto>
           p\<lparr>locked_balance := locked_balance p + promo_bonus promo r,
             rank_id := map_option pk (get_rank ranks (p\<lparr>locked_balance := locked_balance p + promo_bonus promo r\<rparr>))\<rparr>)"
    and "promo_redemptions (snd (referral_view ranks now r u c s)) = promo_redemptions s @
            [\<lparr>red_user_id = u, red_promo_id = promo_id promo, red_bonus_amount = promo_bonus promo r\<rparr>]"
    and "promo_codes (snd (referral_view ranks now r u c s)) =
           map (\<lambda>x. if promo_id x = promo_id promo then x\<lparr>usage_count := usage_count promo + 1\<rparr> else x)
             (promo_codes s)"
proof -
  let ?p1 = "p\<lparr>locked_balance := locked_balance p + promo_bonus promo r\<rparr>"
  let ?s1 = "s\<lparr>deposits := deposits s @ [promo_deposit (next_dep_id (deposits s)) u (promo_bonus promo r) now]\<rparr>"
  let ?s4 = "(save_locked_balance u ?p1 ?s1)
        \<lparr>promo_redemptions := promo_redemptions s @
            [\<lparr>red_user_id = u, red_promo_id = promo_id promo, red_bonus_amount = promo_bonus promo r\<rparr>],
         promo_codes := map (\<lambda>x. if promo_id x = promo_id promo
                                  then x\<lparr>usage_count := usage_count promo + 1\<rparr> else x) (promo_codes s)\<rparr>"
  have run: "referral_view ranks now r u c s = (None, update_rank ranks u ?p1 ?s4)"
    by (rule referral_view_success[OF assms])
  show "fst (referral_view ranks now r u c s) = None" by (simp add: run)
  show "deposits (snd (referral_view ranks now r u c s)) =
           deposits s @ [promo_deposit (next_dep_id (deposits s)) u (promo_bonus promo r) now]"
    by (simp add: run update_rank_tables save_locked_balance_tables)
  have row1: "profiles ?s1 u = Some p" using assms(1) by simp
  have row4: "profiles ?s4 u = Some ?p1" "profiles ?s4 = (profiles s)(u \<mapsto> ?p1)"
    using save_locked_balance_profiles[OF row1, of ?p1] by simp_all
  have "profiles (update_rank ranks u ?p1 ?s4) = (profiles ?s4)(u \<mapsto> ?p1\<lparr>rank_id := map_option pk (get_rank ranks ?p1)\<rparr>)"
    by (rule update_rank_profiles[OF row4(1) refl])
  then show "profiles (snd (referral_view ranks now r u c s)) = (profiles s)(u \<mapsto>
           p\<lparr>locked_balance := locked_balance p + promo_bonus promo r,
             rank_id := map_option pk (get_rank ranks ?p1)\<rparr>)"
    by (simp add: run row4(2))
  show "promo_redemptions (snd (referral_view ranks now r u c s)) = promo_redemptions s @
            [\<lparr>red_user_id = u, red_promo_id = promo_id promo, red_bonus_amount = promo_bonus promo r\<rparr>]"
    by (simp add: run update_rank_tables)
  show "promo_codes (snd (referral_view ranks now r u c s)) =
           map (\<lambda>x. if promo_id x = promo_id promo then x\<lparr>usage_count := usage_count promo + 1\<rparr> else x)
             (promo_codes s)"
    by (simp add: run update_rank_tables)
qed

lemma referral_view_second:
  assumes "referral_view ranks now r u c s = (None, s1)"
  shows "fst (referral_view ranks now' r' u c s1) \<noteq> None \<and> snd (referral_view ranks now' r' u c s1) = s1"
proof -
  from assms obtain p promo where h: "profiles s u = Some p"
    "find (\<lambda>x. code x = c \<and> promo_status x = ''active'') (promo_codes s) = Some promo"
    "\<not> (\<exists>e. expiration promo = Some e \<and> e < now)"
    "\<not> (\<exists>l. usage_limit promo = Some l \<and> l \<le> usage_count promo)"
    "\<not> (\<exists>x \<in> set (promo_redemptions s). red_user_id x = u \<and> red_promo_id x = promo_id promo)"
    by (rule referral_view_None)
  have s1: "s1 = snd (referral_view ranks now r u c s)" using assms by simp
  let ?g = "\<lambda>x. if promo_id x = promo_id promo then x\<lparr>usage_count := usage_count promo + 1\<rparr> else x"
  have pr: "profiles s1 u = Some (p\<lparr>locked_balance := locked_balance p + promo_bonus promo r,
             rank_id := map_option pk (get_rank ranks (p\<lparr>locked_balance := locked_balance p + promo_bonus promo r\<rparr>))\<rparr>)"
    unfolding s1 by (simp add: referral_view_success_tables(3)[OF h])
  have pc: "promo_codes s1 = map ?g (promo_codes s)"
    unfolding s1 by (rule referral_view_success_tables(5)[OF h])
  have "find (\<lambda>x. code x = c \<and> promo_status x = ''active'') (map ?g (promo_codes s))
      = map_option ?g (find (\<lambda>x. code x = c \<and> promo_status x = ''active'') (promo_codes s))"
    by (rule find_map_same) simp
  then have f1: "find (\<lambda>x. code x = c \<and> promo_status x = ''active'') (promo_codes s1) = Some (?g promo)"
    by (simp add: pc h(2))
  have red: "\<exists>x \<in> set (promo_redemptions s1). red_user_id x = u \<and> red_promo_id x = promo_id (?g promo)"
    unfolding s1 by (simp add: referral_view_success_tables(4)[OF h])
  from referral_view_redeemed_fails[OF pr f1 red] show ?thesis .
qed

text \<open>C5: for an account with a profile, redemption fails with \<open>InvalidCode\<close> if no active promo
  has the code; otherwise with \<open>Expired\<close> if the promo is past its expiration; otherwise with
  \<open>ExhaustedUsage\<close> if the usage count has reached the limit; otherwise with
  \<open>AlreadyRedeemed\<close> if the account has a redemption of that promo.  An account that has
  a redemption of the promo always fails, so a second redemption after a successful one
  fails whatever the instant and the draw.  Every failure leaves the database as it was.\<close>

theorem referral_view_failures:
  assumes "profiles s u = Some p"
  shows "(find (\<lambda>x. code x = c \<and> promo_status x = ''active'') (promo_codes s) = None \<longrightarrow>
            referral_view ranks now r u c s = (Some InvalidCode, s))
    \<and> (\<forall>promo. find (\<lambda>x. code x = c \<and> promo_status x = ''active'') (promo_codes s) = Some promo \<longrightarrow>
          ((\<exists>e. expiration promo = Some e \<and> e < now) \<longrightarrow>
             referral_view ranks now r u c s = (Some Expired, s))
        \<and> (\<not> (\<exists>e. expiration promo = Some e \<and> e < now)
             \<and> (\<exists>l. usage_limit promo = Some l \<and> l \<le> usage_count promo) \<longrightarrow>
             referral_view ranks now r u c s = (Some ExhaustedUsage, s))
        \<and> (\<not> (\<exists>e. expiration promo = Some e \<and> e < now)
             \<and> \<not> (\<exists>l. usage_limit promo = Some l \<and> l \<le> usage_count promo)
             \<and> (\<exists>x \<in> set (promo_redemptions s). red_user_id x = u \<and> red_promo_id x = promo_id promo) \<longrightarrow>
             referral_view ranks now r u c s = (Some AlreadyRedeemed, s))
        \<and> ((\<exists>x \<in> set (promo_redemptions s). red_user_id x = u \<and> red_promo_id x = promo_id promo) \<longrightarrow>
             fst (referral_view ranks now r u c s) \<noteq> None))
    \<and> (fst (referral_view ranks now r u c s) \<noteq> None \<longrightarrow> snd (referral_view ranks now r u c s) = s)
    \<and> (\<forall>s1 now' r'. referral_view ranks now r u c s = (None, s1) \<longrightarrow>
          fst (referral_view ranks now' r' u c s1) \<noteq> None \<and> snd (referral_view ranks now' r' u c s1) = s1)"
proof (intro conjI allI impI)
  assume "find (\<lambda>x. code x = c \<and> promo_status x = ''active'') (promo_codes s) = None"
  then show "referral_view ranks now r u c s = (Some InvalidCode, s)"
    using assms by (simp add: referral_view_def)
next
  fix promo
  assume f: "find (\<lambda>x. code x = c \<and> promo_status x = ''active'') (promo_codes s) = Some promo"
  {
    assume "\<exists>e. expiration promo = Some e \<and> e < now"
    then show "referral_view ranks now r u c s = (Some Expired, s)"
      by (rule referral_view_cascade(1)[OF assms f])
  }
  {
    assume "\<not> (\<exists>e. expiration promo = Some e \<and> e < now)
             \<and> (\<exists>l. usage_limit promo = Some l \<and> l \<le> usage_count promo)"
    then show "referral_view ranks now r u c s = (Some ExhaustedUsage, s)"
      using referral_view_cascade(2)[OF assms f] by blast
  }
  {
    assume "\<not> (\<exists>e. expiration promo = Some e \<and> e < now)
             \<and> \<not> (\<exists>l. usage_limit promo = Some l \<and> l \<le> usage_count promo)
             \<and> (\<exists>x \<in> set (promo_redemptions s). red_user_id x = u \<and> red_promo_id x = promo_id promo)"
    then show "referral_view ranks now r u c s = (Some AlreadyRedeemed, s)"
      using referral_view_cascade(3)[OF assms f] by blast
  }
  {
    assume "\<exists>x \<in> set (promo_redemptions s). red_user_id x = u \<and> red_promo_id x = promo_id promo"
    from referral_view_redeemed_fails[OF assms f this]
    show "fst (referral_view ranks now r u c s) \<noteq> None" by simp
  }
next
  assume "fst (referral_view ranks now r u c s) \<noteq> None"
  then show "snd (referral_view ranks now r u c s) = s" by (rule referral_view_failure_unchanged)
next
  fix s1 now' r'
  assume a: "referral_view ranks now r u c s = (None, s1)"
  from referral_view_second[OF a]
  show "fst (referral_view ranks now' r' u c s1) \<noteq> None" and "snd (referral_view ranks now' r' u c s1) = s1"
    by simp_all
qed

lemma promo_db_run:
  "referral_view [band_low, band_high] 50 (1 / 2) 1 ''WELCOME'' promo_db = (None, promo_db_redeemed)"
  by (simp add: referral_view_def promo_db_def promo_db_redeemed_def empty_db_def promo_welcome_def
      new_profile_def Let_def promo_bonus_def next_dep_id_def save_locked_balance_def save_profile_def
      update_rank_def get_rank_def ranks_by_min_balance_def principal_balance_def band_low_def band_high_def)

theorem referral_view_failures_witness:
  "profiles promo_db 1 = Some new_profile
   \<and> referral_view [band_low, band_high] 50 (1 / 2) 1 ''NOPE'' promo_db = (Some InvalidCode, promo_db)
   \<and> referral_view [band_low, band_high] 2000 (1 / 2) 1 ''WELCOME'' promo_db = (Some Expired, promo_db)
   \<and> referral_view [band_low, band_high] 50 (1 / 2) 1 ''WELCOME'' promo_db = (None, promo_db_redeemed)
   \<and> fst (referral_view [band_low, band_high] 60 (1 / 4) 1 ''WELCOME'' promo_db_redeemed) \<noteq> None
   \<and> snd (referral_view [band_low, band_high] 60 (1 / 4) 1 ''WELCOME'' promo_db_redeemed) = promo_db_redeemed"
proof -
  have h: "profiles promo_db 1 = Some new_profile" by (simp add: promo_db_def empty_db_def)
  have f0: "find (\<lambda>x. code x = ''NOPE'' \<and> promo_status x = ''active'') (promo_codes promo_db) = None"
    by (simp add: promo_db_def empty_db_def promo_welcome_def)
  have f1: "find (\<lambda>x. code x = ''WELCOME'' \<and> promo_status x = ''active'') (promo_codes promo_db) = Some promo_welcome"
    by (simp add: promo_db_def empty_db_def promo_welcome_def)
  have ex: "\<exists>e. expiration promo_welcome = Some e \<and> e < 2000" by (simp add: promo_welcome_def)
  have a: "referral_view [band_low, band_high] 50 (1 / 2) 1 ''NOPE'' promo_db = (Some InvalidCode, promo_db)"
    using referral_view_failures [OF h, of "''NOPE''" "[band_low, band_high]" 50 "1 / 2"] f0 by blast
  have b: "referral_view [band_low, band_high] 2000 (1 / 2) 1 ''WELCOME'' promo_db = (Some Expired, promo_db)"
    using referral_view_failures [OF h, of "''WELCOME''" "[band_low, band_high]" 2000 "1 / 2"] f1 ex by blast
  have c: "fst (referral_view [band_low, band_high] 60 (1 / 4) 1 ''WELCOME'' promo_db_redeemed) \<noteq> None
     \<and> snd (referral_view [band_low, band_high] 60 (1 / 4) 1 ''WELCOME'' promo_db_redeemed) = promo_db_redeemed"
    using referral_view_failures [OF h, of "''WELCOME''" "[band_low, band_high]" 50 "1 / 2"] promo_db_run by blast
  from h a b c promo_db_run show ?thesis by blast
qed




section \<open>Wallet assignment\<close>

lemma all_wallets_nonempty: "all_wallets net \<noteq> []"
proof (cases "map_of WALLETS net")
  case None
  then show ?thesis by (simp add: all_wallets_def wallets_usdt_bep20_def)
next
  case (Some l)
  then have "l \<in> {wallets_usdt_bep20, wallets_usdt_erc20, wallets_solana, wallets_ethereum, wallets_bnb_smartchain}"
    by (auto simp: WALLETS_def split: if_splits)
  moreover have "wallets_usdt_bep20 \<noteq> []" "wallets_usdt_erc20 \<noteq> []" "wallets_solana \<noteq> []"
    "wallets_ethereum \<noteq> []" "wallets_bnb_smartchain \<noteq> []"
    by (simp_all add: wallets_usdt_bep20_def wallets_usdt_erc20_def wallets_solana_def
        wallets_ethereum_def wallets_bnb_smartchain_def)
  ultimately show ?thesis using Some by (auto simp: all_wallets_def)
qed

lemma set_cleaned_assignments:
  "set (cleaned_assignments now asg) = {(w, a) \<in> set asg. now - timestamp a < 300}"
  by (auto simp: cleaned_assignments_def)

lemma oldest_time_le: "oldest_time m xs \<le> m"
proof (induction xs arbitrary: m)
  case Nil
  then show ?case by simp
next
  case (Cons x xs)
  obtain w a where x: "x = (w, a)" by (cases x)
  have "oldest_time (min m (timestamp a)) xs \<le> min m (timestamp a)" by (rule Cons.IH)
  then show ?case by (simp add: x)
qed

lemma oldest_time_lower: "(w, a) \<in> set xs \<Longrightarrow> oldest_time m xs \<le> timestamp a"
proof (induction xs arbitrary: m)
  case Nil
  then show ?case by simp
next
  case (Cons x xs)
  obtain w' a' where x: "x = (w', a')" by (cases x)
  show ?case
  proof (cases "(w, a) = x")
    case True
    have "oldest_time (min m (timestamp a')) xs \<le> min m (timestamp a')" by (rule oldest_time_le)
    then show ?thesis using True x by simp
  next
    case False
    then have "(w, a) \<in> set xs" using Cons.prems by simp
    from Cons.IH[OF this] show ?thesis by (simp add: x)
  qed
qed

lemma oldest_time_attained:
  "oldest_time m xs = m \<or> (\<exists>(w, a) \<in> set xs. oldest_time m xs = timestamp a)"
proof (induction xs arbitrary: m)
  case Nil
  then show ?case by simp
next
  case (Cons x xs)
  obtain w a where x: "x = (w, a)" by (cases x)
  from Cons.IH[of "min m (timestamp a)"] show ?case
    by (auto simp: x min_def split: if_splits)
qed

lemma map_of_dict_set: "map_of (dict_set k v xs) = (map_of xs)(k \<mapsto> v)"
  by (induction xs) (auto simp: fun_eq_iff)

lemma dict_set_member: "(k, v) \<in> set (dict_set k v xs)"
  by (induction xs) auto

lemma available_wallets_set:
  assumes "uid = Some u" "u \<noteq> 0"
  shows "set (available_wallets ws uid cleaned) = {w \<in> set ws. wallet_free_for cleaned u w}"
  using assms by (auto simp: available_wallets_def wallet_free_for_def split: option.splits)

lemma get_available_wallet_grant:
  assumes "available_wallets (all_wallets net) uid (cleaned_assignments now asg) \<noteq> []"
  shows "\<exists>w \<in> set (available_wallets (all_wallets net) uid (cleaned_assignments now asg)).
     get_available_wallet net uid now choice asg =
       (Inr (Some w, None),
        dict_set w \<lparr>a_user_id = uid, a_network = net, timestamp = now\<rparr> (cleaned_assignments now asg))"
proof -
  let ?av = "available_wallets (all_wallets net) uid (cleaned_assignments now asg)"
  have "0 < length ?av" using assms by simp
  then have "choice mod length ?av < length ?av" by simp
  then have "?av ! (choice mod length ?av) \<in> set ?av" by (rule nth_mem)
  moreover have "get_available_wallet net uid now choice asg =
       (Inr (Some (?av ! (choice mod length ?av)), None),
        dict_set (?av ! (choice mod length ?av)) \<lparr>a_user_id = uid, a_network = net, timestamp = now\<rparr>
          (cleaned_assignments now asg))"
    using assms by (simp add: get_available_wallet_def Let_def)
  ultimately show ?thesis by blast
qed

lemma get_available_wallet_wait:
  assumes "available_wallets (all_wallets net) uid (cleaned_assignments now asg) = []"
  shows "\<exists>tr. get_available_wallet net uid now choice asg = (Inr (None, Some tr), cleaned_assignments now asg)
      \<and> 0 < tr
      \<and> (\<exists>(w, a) \<in> set (cleaned_assignments now asg). tr = 300 - (now - timestamp a))
      \<and> (\<forall>(w, a) \<in> set (cleaned_assignments now asg). tr \<le> 300 - (now - timestamp a))"
proof -
  let ?cl = "cleaned_assignments now asg"
  obtain w0 ws where pool: "all_wallets net = w0 # ws"
    using all_wallets_nonempty[of net] by (cases "all_wallets net") auto
  have "w0 \<notin> set (available_wallets (all_wallets net) uid ?cl)" using assms by simp
  then have "map_of ?cl w0 \<noteq> None"
    by (auto simp: available_wallets_def pool split: option.splits)
  then obtain w a rest where cl: "?cl = (w, a) # rest" by (cases ?cl) auto
  let ?o = "oldest_time (timestamp a) rest"
  have fresh: "now - timestamp b < 300" if "(v, b) \<in> set ?cl" for v b
    using that by (simp add: set_cleaned_assignments)
  have att: "\<exists>(v, b) \<in> set ?cl. ?o = timestamp b"
    using oldest_time_attained[of "timestamp a" rest] by (auto simp: cl)
  have low: "\<forall>(v, b) \<in> set ?cl. ?o \<le> timestamp b"
    using oldest_time_le[of "timestamp a" rest] oldest_time_lower[of _ _ rest "timestamp a"]
    by (auto simp: cl)
  from att obtain v b where vb: "(v, b) \<in> set ?cl" "?o = timestamp b" by auto
  have pos: "0 < 300 - (now - ?o)" using fresh[OF vb(1)] vb(2) by simp
  have run: "get_available_wallet net uid now choice asg = (Inr (None, Some (300 - (now - ?o))), ?cl)"
    using assms pos by (simp add: get_available_wallet_def Let_def cl)
  have a1: "\<exists>(w, a) \<in> set ?cl. 300 - (now - ?o) = 300 - (now - timestamp a)"
    using vb by auto
  have a2: "\<forall>(w, a) \<in> set ?cl. 300 - (now - ?o) \<le> 300 - (now - timestamp a)"
    using low by auto
  from run pos a1 a2 show ?thesis by blast
qed

text \<open>C10: a request by a user (a key that is not 0) first drops every entry whose 300
  seconds have passed.  If some address of the network's list is free for the user, the
  call returns such an address and records for it an assignment to the user stamped
  \<open>now\<close>, which later sweeps keep exactly until \<open>now + 300\<close>.  Otherwise it returns no
  address, records nothing, and the wait returned is the least remaining time over the
  entries kept, which is positive.  No call raises: neither \<open>min\<close> of an empty dictionary nor
  \<open>random.choice\<close> of an empty list is reached.\<close>

theorem get_available_wallet_lease:
  assumes "uid = Some u" "u \<noteq> 0"
  shows "set (cleaned_assignments now asg) = {(w, a) \<in> set asg. now - timestamp a < 300}
    \<and> ((\<exists>w \<in> set (all_wallets net). wallet_free_for (cleaned_assignments now asg) u w) \<longrightarrow>
         (\<exists>w. w \<in> set (all_wallets net) \<and> wallet_free_for (cleaned_assignments now asg) u w
            \<and> get_available_wallet net uid now choice asg =
                 (Inr (Some w, None),
                  dict_set w \<lparr>a_user_id = uid, a_network = net, timestamp = now\<rparr> (cleaned_assignments now asg))
            \<and> map_of (snd (get_available_wallet net uid now choice asg)) w
                 = Some \<lparr>a_user_id = uid, a_network = net, timestamp = now\<rparr>
            \<and> (\<forall>t. (w, \<lparr>a_user_id = uid, a_network = net, timestamp = now\<rparr>)
                      \<in> set (cleaned_assignments t (snd (get_available_wallet net uid now choice asg)))
                    \<longleftrightarrow> t < now + 300)))
    \<and> (\<not> (\<exists>w \<in> set (all_wallets net). wallet_free_for (cleaned_assignments now asg) u w) \<longrightarrow>
         (\<exists>tr. get_available_wallet net uid now choice asg = (Inr (None, Some tr), cleaned_assignments now asg)
            \<and> 0 < tr
            \<and> (\<exists>(w, a) \<in> set (cleaned_assignments now asg). tr = 300 - (now - timestamp a))
            \<and> (\<forall>(w, a) \<in> set (cleaned_assignments now asg). tr \<le> 300 - (now - timestamp a))))
    \<and> (\<forall>e. fst (get_available_wallet net uid now choice asg) \<noteq> Inl e)"
proof (intro conjI impI allI)
  let ?cl = "cleaned_assignments now asg"
  let ?av = "available_wallets (all_wallets net) uid ?cl"
  have av: "set ?av = {w \<in> set (all_wallets net). wallet_free_for ?cl u w}"
    by (rule available_wallets_set[OF assms])
  show "set ?cl = {(w, a) \<in> set asg. now - timestamp a < 300}" by (rule set_cleaned_assignments)
  {
    assume "\<exists>w \<in> set (all_wallets net). wallet_free_for ?cl u w"
    then have "set ?av \<noteq> {}" unfolding av by blast
    then have ne: "?av \<noteq> []" by auto
    from get_available_wallet_grant[OF ne, of choice] obtain w where w: "w \<in> set ?av"
      "get_available_wallet net uid now choice asg =
         (Inr (Some w, None), dict_set w \<lparr>a_user_id = uid, a_network = net, timestamp = now\<rparr> ?cl)"
      by blast
    have m: "map_of (snd (get_available_wallet net uid now choice asg)) w
                 = Some \<lparr>a_user_id = uid, a_network = net, timestamp = now\<rparr>"
      by (simp add: w(2) map_of_dict_set)
    have k: "\<forall>t. (w, \<lparr>a_user_id = uid, a_network = net, timestamp = now\<rparr>)
                      \<in> set (cleaned_assignments t (snd (get_available_wallet net uid now choice asg)))
                    \<longleftrightarrow> t < now + 300"
      using dict_set_member[of w "\<lparr>a_user_id = uid, a_network = net, timestamp = now\<rparr>" ?cl]
      by (auto simp: w(2) set_cleaned_assignments)
    from w m k av
    show "\<exists>w. w \<in> set (all_wallets net) \<and> wallet_free_for ?cl u w
            \<and> get_available_wallet net uid now choice asg =
                 (Inr (Some w, None),
                  dict_set w \<lparr>a_user_id = uid, a_network = net, timestamp = now\<rparr> ?cl)
            \<and> map_of (snd (get_available_wallet net uid now choice asg)) w
                 = Some \<lparr>a_user_id = uid, a_network = net, timestamp = now\<rparr>
            \<and> (\<forall>t. (w, \<lparr>a_user_id = uid, a_network = net, timestamp = now\<rparr>)
                      \<in> set (cleaned_assignments t (snd (get_available_wallet net uid now choice asg)))
                    \<longleftrightarrow> t < now + 300)"
      by blast
  }
  {
    assume "\<not> (\<exists>w \<in> set (all_wallets net). wallet_free_for ?cl u w)"
    then have "set ?av = {}" unfolding av by blast
    then have "?av = []" by simp
    from get_available_wallet_wait[OF this, of choice]
    show "\<exists>tr. get_available_wallet net uid now choice asg = (Inr (None, Some tr), ?cl)
            \<and> 0 < tr
            \<and> (\<exists>(w, a) \<in> set ?cl. tr = 300 - (now - timestamp a))
            \<and> (\<forall>(w, a) \<in> set ?cl. tr \<le> 300 - (now - timestamp a))" .
  }
  fix e
  show "fst (get_available_wallet net uid now choice asg) \<noteq> Inl e"
  proof (cases "?av = []")
    case True
    from get_available_wallet_wait[OF True, of choice] show ?thesis by auto
  next
    case False
    from get_available_wallet_grant[OF False, of choice] show ?thesis by auto
  qed
qed

lemma map_of_const_entries:
  "w \<in> set ws \<Longrightarrow> map_of (map (\<lambda>w. (w, c)) ws) w = Some c"
  by (induction ws) auto

lemma all_wallets_solana: "all_wallets ''Solana'' = wallets_solana"
  by (simp add: all_wallets_def WALLETS_def)

theorem get_available_wallet_lease_witness:
  "(\<exists>w. w \<in> set wallets_solana
        \<and> get_available_wallet ''Solana'' (Some 1) 200 0 [] =
            (Inr (Some w, None), [(w, \<lparr>a_user_id = Some 1, a_network = ''Solana'', timestamp = 200\<rparr>)]))
   \<and> get_available_wallet ''Solana'' (Some 1) 200 0 solana_taken = (Inr (None, Some 200), solana_taken)"
proof -
  have u: "Some (1::nat) = Some 1" "(1::nat) \<noteq> 0" by simp_all
  note T0 = get_available_wallet_lease [OF u, of 200 "[]" "''Solana''" 0]
  note T1 = get_available_wallet_lease [OF u, of 200 solana_taken "''Solana''" 0]
  have c0: "cleaned_assignments 200 [] = []" by (simp add: cleaned_assignments_def)
  have "wallets_solana \<noteq> []" by (simp add: wallets_solana_def)
  then have "hd wallets_solana \<in> set wallets_solana" by (rule hd_in_set)
  then have free0: "\<exists>w \<in> set (all_wallets ''Solana''). wallet_free_for (cleaned_assignments 200 []) 1 w"
    by (auto simp: all_wallets_solana c0 wallet_free_for_def)
  from T0 free0 have "\<exists>w. w \<in> set (all_wallets ''Solana'')
        \<and> get_available_wallet ''Solana'' (Some 1) 200 0 [] =
            (Inr (Some w, None),
             dict_set w \<lparr>a_user_id = Some 1, a_network = ''Solana'', timestamp = 200\<rparr> (cleaned_assignments 200 []))"
    by blast
  then have a: "\<exists>w. w \<in> set wallets_solana
        \<and> get_available_wallet ''Solana'' (Some 1) 200 0 [] =
            (Inr (Some w, None), [(w, \<lparr>a_user_id = Some 1, a_network = ''Solana'', timestamp = 200\<rparr>)])"
    by (simp add: all_wallets_solana c0)
  have c1: "cleaned_assignments 200 solana_taken = solana_taken"
    by (simp add: cleaned_assignments_def solana_taken_def filter_map o_def)
  have "\<not> (\<exists>w \<in> set wallets_solana. wallet_free_for solana_taken 1 w)"
    by (auto simp: wallet_free_for_def solana_taken_def map_of_const_entries)
  then have taken: "\<not> (\<exists>w \<in> set (all_wallets ''Solana''). wallet_free_for (cleaned_assignments 200 solana_taken) 1 w)"
    unfolding all_wallets_solana c1 .
  from T1 taken obtain tr where tr:
    "get_available_wallet ''Solana'' (Some 1) 200 0 solana_taken = (Inr (None, Some tr), cleaned_assignments 200 solana_taken)"
    "\<exists>(w, a) \<in> set (cleaned_assignments 200 solana_taken). tr = 300 - (200 - timestamp a)"
    by blast
  from tr(2) have "\<exists>(w, a) \<in> set solana_taken. tr = 300 - (200 - timestamp a)" unfolding c1 .
  then have "tr = 200" by (auto simp: solana_taken_def)
  with tr(1) have b: "get_available_wallet ''Solana'' (Some 1) 200 0 solana_taken = (Inr (None, Some 200), solana_taken)"
    by (simp add: c1)
  from a b show ?thesis by blast
qed


end
